theory Spec2Isabelle
  imports Complex_Main "HOL-Library.AList" "HOL-Library.Log_Nat"
begin

section \<open>Python exceptions and the process environment\<close>

text \<open>
  Every exception the modelled code can raise is a value of \<open>py_error\<close>; a function
  that may raise returns \<open>py_error + 'a\<close> with \<open>Inl\<close> for the exception.
  \<open>ProviderError\<close> stands for whatever an external SDK or HTTP call raises (network
  failure, authentication, malformed response, time-out), \<open>TelegramError\<close> for what the
  chat platform raises.
\<close>

datatype py_error =
    KeyError | ValueError | TypeError | OverflowError | ZeroDivisionError | OSError
  | ProviderError | TelegramError

text \<open>How one attempt to write a JSON file ends: it succeeds, \<open>open\<close> raises (the
  file is untouched), or the write raises after \<open>open(path, "w")\<close> has truncated the
  file (what is left does not parse).\<close>

datatype write_outcome = WriteOk | WriteFailsEarly | WriteFailsLate

text \<open>One entry of the Moralis wallet-balances answer. A field is absent (the
  \<open>.get\<close> default applies), present but rejected by \<open>int(...)\<close>, or a value.\<close>

datatype 'a field = Absent | Bad | Val 'a

record token_data =
  td_token_address :: "string option"
  td_balance :: "int field"
  td_decimals :: "nat field"

text \<open>
  The environment of one process: the module-level constants read from
  \<open>os.getenv\<close>, the clock, and the outside world as oracles. \<open>write_result n\<close> is the
  outcome of the \<open>n\<close>-th write attempt. The provider oracles answer a request with a
  result or an exception; the platform oracles say whether a call returns normally.
\<close>

record env =
  DATABASE_URL :: "string option"
  ADMIN_USER_ID :: string
  MORALIS_API_KEY :: "string option"
  ETHERSCAN_API_KEY :: "string option"
  clock :: int
  write_result :: "nat \<Rightarrow> write_outcome"
  get_wallet_token_balances :: "string \<Rightarrow> string \<Rightarrow> string \<Rightarrow> py_error + token_data list"
  get_token_metadata :: "string \<Rightarrow> string \<Rightarrow> py_error + nat field"
  http_get_json :: "string \<Rightarrow> py_error + int field"
  ban_chat_member :: "string \<Rightarrow> int \<Rightarrow> bool"
  unban_chat_member :: "string \<Rightarrow> int \<Rightarrow> bool"

text \<open>Python truthiness of an optional string: \<open>None\<close> and \<open>""\<close> are false.\<close>

definition truthy :: "string option \<Rightarrow> bool" where
  "truthy s = (case s of None \<Rightarrow> False | Some v \<Rightarrow> v \<noteq> [])"

section \<open>The document store (\<open>load_json_file\<close>, \<open>save_json_file\<close>)\<close>

text \<open>
  A document is a JSON object: a dictionary with string keys, kept as an association
  list in insertion order. \<open>d[k] = v\<close> is \<open>AList.update k v d\<close> (the key keeps its place
  or is appended), \<open>d.get(k)\<close> is \<open>map_of d k\<close>.

  A resource is what stands behind one path: the file on disk, and the row of the
  database for that path. A file is missing, present but unreadable or unparsable, or
  holds a document.
\<close>

type_synonym 'v document = "(string \<times> 'v) list"

datatype 'v stored = Missing | Corrupt | Content "'v document"

record 'v resource =
  disk_file :: "'v stored"
  db_row :: "'v stored"

text \<open>
  Modelled from the spec: \<open>database_simple.load_json_file\<close> and
  \<open>database_simple.save_json_file\<close>, which \<open>verification.py\<close> imports when
  \<open>DATABASE_URL\<close> is set, are not among the source files. Spec 4.1: each document is
  a single row keyed by resource name, written as a whole-document replace on every
  save; load returns an empty mapping if the resource does not exist or cannot be
  parsed; save returns false on any write failure and never raises.
\<close>

definition db_load :: "'v resource \<Rightarrow> py_error + 'v document" where
  "db_load r = (case db_row r of Content d \<Rightarrow> Inr d | _ \<Rightarrow> Inr [])"

definition db_save :: "write_outcome \<Rightarrow> 'v resource \<Rightarrow> 'v document \<Rightarrow> py_error + ('v resource \<times> bool)" where
  "db_save out r d =
     (if out = WriteOk then Inr (r\<lparr>db_row := Content d\<rparr>, True) else Inr (r, False))"

text \<open>The body of the \<open>try\<close> in \<open>load_json_file\<close>: \<open>open\<close> and \<open>json.load\<close>.\<close>

definition read_json :: "'v stored \<Rightarrow> py_error + 'v document" where
  "read_json f = (case f of Missing \<Rightarrow> Inl OSError | Corrupt \<Rightarrow> Inl ValueError | Content d \<Rightarrow> Inr d)"

definition load_json_file :: "env \<Rightarrow> 'v resource \<Rightarrow> py_error + 'v document" where
  "load_json_file e r =
     (if truthy (DATABASE_URL e) then db_load r
      else if disk_file r \<noteq> Missing then
        (case read_json (disk_file r) of
           Inr d \<Rightarrow> Inr d
         | Inl ex \<Rightarrow> Inr [])
      else Inr [])"

text \<open>The body of the \<open>try\<close> in \<open>save_json_file\<close>: \<open>open(path, "w")\<close> and
  \<open>json.dump\<close>. It returns the file it leaves behind and the exception, if any.\<close>

definition write_json :: "write_outcome \<Rightarrow> 'v stored \<Rightarrow> 'v document \<Rightarrow> 'v stored \<times> py_error option" where
  "write_json out f d =
     (case out of
        WriteOk \<Rightarrow> (Content d, None)
      | WriteFailsEarly \<Rightarrow> (f, Some OSError)
      | WriteFailsLate \<Rightarrow> (Corrupt, Some OSError))"

definition save_json_file :: "env \<Rightarrow> write_outcome \<Rightarrow> 'v resource \<Rightarrow> 'v document \<Rightarrow> py_error + ('v resource \<times> bool)" where
  "save_json_file e out r d =
     (if truthy (DATABASE_URL e) then db_save out r d
      else
        (case write_json out (disk_file r) d of
           (f', None) \<Rightarrow> Inr (r\<lparr>disk_file := f'\<rparr>, True)
         | (f', Some ex) \<Rightarrow> Inr (r\<lparr>disk_file := f'\<rparr>, False)))"

section \<open>The persisted state\<close>

record rejection_record =
  rejection_count :: int
  group_name :: string
  last_admin_id :: "string option"
  last_admin_name :: string
  first_rejection :: int
  last_rejection :: int
  blocked :: bool

text \<open>A group's configuration. \<open>token\<close> and \<open>min_balance\<close> are read with
  \<open>group_config[...]\<close> (a missing key raises), \<open>chain_id\<close> with \<open>.get\<close>. The threshold
  is a finite JSON number, kept as its exact value.\<close>

record group_config =
  chain_id :: "string option"
  token :: "string option"
  min_balance :: "rat option"
  verifier :: "string option"

record user_record =
  address :: "string option"
  verified :: "bool option"
  last_verified :: "int option"
  verification_tx :: "bool option"

text \<open>The three documents of the core and the number of writes attempted so far.\<close>

record world =
  config_store :: "group_config resource"
  user_data_store :: "user_record document resource"
  rejected_store :: "rejection_record resource"
  writes :: nat

section \<open>The 3-strike rejection tracker\<close>

text \<open>Python's \<open>x or y\<close> on an optional string.\<close>

definition or_else :: "string option \<Rightarrow> string \<Rightarrow> string" where
  "or_else s dflt = (case s of None \<Rightarrow> dflt | Some v \<Rightarrow> if v \<noteq> [] then v else dflt)"

definition new_rejection_record :: "env \<Rightarrow> string \<Rightarrow> string option \<Rightarrow> string option \<Rightarrow> string option \<Rightarrow> rejection_record" where
  "new_rejection_record e group_id gname admin_id admin_name =
     \<lparr> rejection_count = 0,
       group_name = or_else gname (''Group '' @ group_id),
       last_admin_id = admin_id,
       last_admin_name = or_else admin_name ''Unknown'',
       first_rejection = clock e,
       last_rejection = clock e,
       blocked = False \<rparr>"

text \<open>The mutations of \<open>track_rejection\<close> on the group's record, in source order.\<close>

definition strike :: "env \<Rightarrow> string option \<Rightarrow> string option \<Rightarrow> string option \<Rightarrow> rejection_record \<Rightarrow> rejection_record" where
  "strike e gname admin_id admin_name r0 =
     (let r1 = r0\<lparr>rejection_count := rejection_count r0 + 1\<rparr>;
          r2 = r1\<lparr>last_rejection := clock e\<rparr>;
          r3 = (if truthy admin_id then r2\<lparr>last_admin_id := admin_id\<rparr> else r2);
          r4 = (if truthy admin_name then r3\<lparr>last_admin_name := or_else admin_name (last_admin_name r3)\<rparr> else r3);
          r5 = (if truthy gname then r4\<lparr>group_name := or_else gname (group_name r4)\<rparr> else r4)
      in if rejection_count r5 \<ge> 3 then r5\<lparr>blocked := True\<rparr> else r5)"

definition track_rejection ::
  "env \<Rightarrow> string \<Rightarrow> string option \<Rightarrow> string option \<Rightarrow> string option \<Rightarrow> world \<Rightarrow> py_error + (world \<times> bool)" where
  "track_rejection e group_id gname admin_id admin_name w =
     (case load_json_file e (rejected_store w) of
        Inl ex \<Rightarrow> Inl ex
      | Inr rejected_groups \<Rightarrow>
          (let rg1 = (if map_of rejected_groups group_id = None
                      then AList.update group_id (new_rejection_record e group_id gname admin_id admin_name) rejected_groups
                      else rejected_groups)
           in case map_of rg1 group_id of
                None \<Rightarrow> Inl KeyError
              | Some r0 \<Rightarrow>
                  (let r = strike e gname admin_id admin_name r0;
                       rg2 = AList.update group_id r rg1
                   in case save_json_file e (write_result e (writes w)) (rejected_store w) rg2 of
                        Inl ex \<Rightarrow> Inl ex
                      | Inr (st, ok) \<Rightarrow>
                          Inr (w\<lparr>rejected_store := st, writes := Suc (writes w)\<rparr>, blocked r))))"

definition is_group_blocked :: "env \<Rightarrow> string \<Rightarrow> world \<Rightarrow> py_error + bool" where
  "is_group_blocked e group_id w =
     (case load_json_file e (rejected_store w) of
        Inl ex \<Rightarrow> Inl ex
      | Inr rejected_groups \<Rightarrow>
          (case map_of rejected_groups group_id of
             None \<Rightarrow> Inr False
           | Some group_data \<Rightarrow> Inr (blocked group_data)))"

definition get_rejection_count :: "env \<Rightarrow> string \<Rightarrow> world \<Rightarrow> py_error + int" where
  "get_rejection_count e group_id w =
     (case load_json_file e (rejected_store w) of
        Inl ex \<Rightarrow> Inl ex
      | Inr rejected_groups \<Rightarrow>
          (case map_of rejected_groups group_id of
             None \<Rightarrow> Inr 0
           | Some group_data \<Rightarrow> Inr (rejection_count group_data)))"

definition reset_rejection_count :: "env \<Rightarrow> string \<Rightarrow> world \<Rightarrow> py_error + (world \<times> bool)" where
  "reset_rejection_count e group_id w =
     (case load_json_file e (rejected_store w) of
        Inl ex \<Rightarrow> Inl ex
      | Inr rejected_groups \<Rightarrow>
          (case map_of rejected_groups group_id of
             Some r \<Rightarrow>
               (let rg = AList.update group_id (r\<lparr>rejection_count := 0, blocked := False\<rparr>) rejected_groups
                in case save_json_file e (write_result e (writes w)) (rejected_store w) rg of
                     Inl ex \<Rightarrow> Inl ex
                   | Inr (st, ok) \<Rightarrow> Inr (w\<lparr>rejected_store := st, writes := Suc (writes w)\<rparr>, ok))
           | None \<Rightarrow> Inr (w, True)))"

section \<open>Python numbers\<close>

text \<open>
  A Python \<open>float\<close> is an IEEE 754 binary64 number; a finite one is kept as the
  rational it denotes. \<open>to_double\<close> rounds a rational to the nearest binary64 value,
  ties to even, with gradual underflow, and raises \<open>OverflowError\<close> where CPython
  does when an \<open>int\<close> is converted or two \<open>int\<close>s are divided.
\<close>

definition pow2 :: "int \<Rightarrow> rat" where
  "pow2 k = (if k \<ge> 0 then 2 ^ nat k else 1 / 2 ^ nat (- k))"

definition round_half_even :: "rat \<Rightarrow> int" where
  "round_half_even x =
     (let f = \<lfloor>x\<rfloor>; d = x - of_int f
      in if d < 1 / 2 then f else if d > 1 / 2 then f + 1 else if even f then f else f + 1)"

text \<open>\<open>ilog2 a b\<close> is the integer \<open>k\<close> with \<open>2^k \<le> a / b < 2^(k+1)\<close>, for positive
  \<open>a\<close> and \<open>b\<close>.\<close>

definition ilog2 :: "int \<Rightarrow> int \<Rightarrow> int" where
  "ilog2 a b =
     (let k = bitlen a - bitlen b
      in if pow2 k * of_int b \<le> of_int a then k else k - 1)"

definition to_double :: "rat \<Rightarrow> py_error + rat" where
  "to_double q =
     (if q = 0 then Inr 0
      else
        (case quotient_of \<bar>q\<bar> of (a, b) \<Rightarrow>
           (let ex = max (ilog2 a b) (- 1022);
                ulp = pow2 (ex - 52);
                v = of_int (round_half_even (\<bar>q\<bar> / ulp)) * ulp
            in if v \<ge> pow2 1024 then Inl OverflowError else Inr (sgn q * v))))"

text \<open>\<open>a / b\<close> on two \<open>int\<close>s: the correctly rounded quotient.\<close>

definition py_truediv :: "int \<Rightarrow> int \<Rightarrow> py_error + rat" where
  "py_truediv a b = (if b = 0 then Inl ZeroDivisionError else to_double (of_int a / of_int b))"

section \<open>Balance verification\<close>

text \<open>What the process does to the outside, in order: the requests to the two providers,
  the calls of the chat platform, and the saves of the member document.\<close>

datatype event =
    MoralisBalances string string string
  | MoralisMetadata string string
  | EtherscanGet string
  | BanChatMember string int
  | UnbanChatMember string int
  | SaveUserData "user_record document document"

definition CHAIN_MAP :: "(string \<times> string) list" where
  "CHAIN_MAP =
     [(''eth'', ''eth''), (''mainnet'', ''eth''), (''0x1'', ''eth''),
      (''bsc'', ''bsc''), (''binance'', ''bsc''), (''0x38'', ''bsc''),
      (''polygon'', ''polygon''), (''matic'', ''polygon''), (''0x89'', ''polygon'')]"

text \<open>\<open>CHAIN_MAP.get(chain_id, chain_id)\<close>.\<close>

definition chain_map_get :: "string \<Rightarrow> string" where
  "chain_map_get c = (case map_of CHAIN_MAP c of Some v \<Rightarrow> v | None \<Rightarrow> c)"

text \<open>\<open>str.lower\<close> on ASCII text.\<close>

definition lower_char :: "char \<Rightarrow> char" where
  "lower_char c =
     (let n = (of_char c :: nat) in if 65 \<le> n \<and> n \<le> 90 then char_of (n + 32) else c)"

definition py_lower :: "string \<Rightarrow> string" where
  "py_lower s = map lower_char s"

text \<open>\<open>int(d.get(key, dflt))\<close> on a field of a provider's answer.\<close>

definition int_field :: "'a field \<Rightarrow> 'a \<Rightarrow> py_error + 'a" where
  "int_field f dflt = (case f of Absent \<Rightarrow> Inr dflt | Bad \<Rightarrow> Inl ValueError | Val v \<Rightarrow> Inr v)"

text \<open>\<open>get_token_decimals\<close>: the decimals of the token's metadata on the mapped
  chain, 18 on any exception.\<close>

definition get_token_decimals :: "env \<Rightarrow> string \<Rightarrow> string \<Rightarrow> nat \<times> event list" where
  "get_token_decimals e token_address chain =
     (let moralis_chain = chain_map_get chain;
          evs = [MoralisMetadata moralis_chain token_address]
      in case get_token_metadata e moralis_chain token_address of
           Inl ex \<Rightarrow> (18, evs)
         | Inr f \<Rightarrow>
             (case int_field f 18 of
                Inl ex \<Rightarrow> (18, evs)
              | Inr decimals \<Rightarrow> (decimals, evs)))"

text \<open>The loop of \<open>get_token_balance_moralis\<close> over the answer: the first entry for the
  token decides. Reaching the end of the list is the \<open>return 0.0\<close> after the loop.\<close>

fun moralis_scan :: "string \<Rightarrow> token_data list \<Rightarrow> py_error + rat" where
  "moralis_scan tok [] = Inr 0"
| "moralis_scan tok (td # rest) =
     (if py_lower (case td_token_address td of None \<Rightarrow> [] | Some a \<Rightarrow> a) = py_lower tok then
        (case int_field (td_balance td) 0 of
           Inl ex \<Rightarrow> Inl ex
         | Inr raw_balance \<Rightarrow>
             (case int_field (td_decimals td) 18 of
                Inl ex \<Rightarrow> Inl ex
              | Inr decimals \<Rightarrow> py_truediv raw_balance (10 ^ decimals)))
      else moralis_scan tok rest)"

definition get_token_balance_moralis :: "env \<Rightarrow> string \<Rightarrow> string \<Rightarrow> string \<Rightarrow> rat \<times> event list" where
  "get_token_balance_moralis e wallet tok chain =
     (let evs = [MoralisBalances wallet chain tok]
      in case get_wallet_token_balances e wallet chain tok of
           Inl ex \<Rightarrow> (0, evs)
         | Inr result \<Rightarrow>
             (case moralis_scan tok result of
                Inl ex \<Rightarrow> (0, evs)
              | Inr b \<Rightarrow> (b, evs)))"

text \<open>\<open>get_token_balance_etherscan\<close> returns the raw \<open>int\<close> of the answer, or the
  \<open>float\<close> \<open>0.0\<close> when there is no key or the request fails.\<close>

datatype raw_balance = RawInt int | FloatZero

definition etherscan_url :: "string \<Rightarrow> string \<Rightarrow> string \<Rightarrow> string" where
  "etherscan_url tok wallet key =
     ''https://api.etherscan.io/v2/api'' @ ''?chainid=1'' @ ''&module=account''
     @ ''&action=tokenbalance'' @ ''&contractaddress='' @ tok @ ''&address='' @ wallet
     @ ''&tag=latest'' @ ''&apikey='' @ key"

definition get_token_balance_etherscan :: "env \<Rightarrow> string \<Rightarrow> string \<Rightarrow> raw_balance \<times> event list" where
  "get_token_balance_etherscan e wallet tok =
     (case ETHERSCAN_API_KEY e of
        None \<Rightarrow> (FloatZero, [])
      | Some key \<Rightarrow>
          if key = [] then (FloatZero, [])
          else
            (let url = etherscan_url tok wallet key
             in case http_get_json e url of
                  Inl ex \<Rightarrow> (FloatZero, [EtherscanGet url])
                | Inr f \<Rightarrow>
                    (case int_field f 0 of
                       Inl ex \<Rightarrow> (FloatZero, [EtherscanGet url])
                     | Inr raw \<Rightarrow> (RawInt raw, [EtherscanGet url]))))"

text \<open>\<open>etherscan_balance_raw / (10 ** decimals)\<close>: an \<open>int\<close> is divided exactly and
  rounded once; the \<open>float\<close> \<open>0.0\<close> makes Python convert the divisor to a \<open>float\<close>
  first.\<close>

definition scale_balance :: "raw_balance \<Rightarrow> nat \<Rightarrow> py_error + rat" where
  "scale_balance raw decimals =
     (case raw of
        RawInt n \<Rightarrow> py_truediv n (10 ^ decimals)
      | FloatZero \<Rightarrow>
          (case to_double (of_int (10 ^ decimals)) of
             Inl ex \<Rightarrow> Inl ex
           | Inr d \<Rightarrow> Inr 0))"

text \<open>\<open>MORALIS_API_KEY and len(MORALIS_API_KEY) > 50\<close>.\<close>

definition moralis_configured :: "env \<Rightarrow> bool" where
  "moralis_configured e =
     (case MORALIS_API_KEY e of None \<Rightarrow> False | Some key \<Rightarrow> key \<noteq> [] \<and> length key > 50)"

text \<open>The block under \<open>if balance <= 0\<close>: the Etherscan balance, then the decimals,
  then the division.\<close>

definition etherscan_fallback :: "env \<Rightarrow> string \<Rightarrow> string \<Rightarrow> string \<Rightarrow> (py_error + rat) \<times> event list" where
  "etherscan_fallback e user_address token_address chain =
     (case get_token_balance_etherscan e user_address token_address of
        (etherscan_balance_raw, evs1) \<Rightarrow>
          (case get_token_decimals e token_address chain of
             (decimals, evs2) \<Rightarrow> (scale_balance etherscan_balance_raw decimals, evs1 @ evs2)))"

text \<open>\<open>group_config.get("chain_id", "eth")\<close>.\<close>

definition config_chain :: "group_config \<Rightarrow> string" where
  "config_chain cfg = (case chain_id cfg of None \<Rightarrow> ''eth'' | Some c \<Rightarrow> c)"

text \<open>The body of the \<open>try\<close> of \<open>verify_user_balance\<close>.\<close>

definition verify_user_balance_try :: "env \<Rightarrow> group_config \<Rightarrow> string \<Rightarrow> (py_error + bool) \<times> event list" where
  "verify_user_balance_try e cfg user_address =
     (case token cfg of
        None \<Rightarrow> (Inl KeyError, [])
      | Some token_address \<Rightarrow>
          (case min_balance cfg of
             None \<Rightarrow> (Inl KeyError, [])
           | Some minb \<Rightarrow>
               (let chain = config_chain cfg;
                    (balance, evs0) =
                      (if moralis_configured e
                       then get_token_balance_moralis e user_address token_address (chain_map_get chain)
                       else (0, []))
                in if balance \<le> 0 then
                     (case etherscan_fallback e user_address token_address chain of
                        (Inl ex, evs1) \<Rightarrow> (Inl ex, evs0 @ evs1)
                      | (Inr balance', evs1) \<Rightarrow> (Inr (balance' \<ge> minb), evs0 @ evs1))
                   else (Inr (balance \<ge> minb), evs0))))"

definition verify_user_balance :: "env \<Rightarrow> group_config \<Rightarrow> string \<Rightarrow> (py_error + bool) \<times> event list" where
  "verify_user_balance e cfg user_address =
     (case verify_user_balance_try e cfg user_address of
        (Inl ex, evs) \<Rightarrow> (Inr False, evs)
      | (Inr sufficient, evs) \<Rightarrow> (Inr sufficient, evs))"

section \<open>The reverification pass (\<open>verify_cron.py\<close>)\<close>

subsection \<open>\<open>int(user_id)\<close>, \<open>str(user_id)\<close> and \<open>is_owner\<close>\<close>

text \<open>\<open>int(s)\<close> on ASCII text: surrounding white space (tab, line feed, vertical tab,
  form feed, carriage return, space) is dropped, a sign may lead, then decimal digits,
  with single underscores allowed between digits. More than 4300 digits are refused
  (the interpreter's limit on conversions between \<open>int\<close> and \<open>str\<close>).\<close>

definition is_space :: "char \<Rightarrow> bool" where
  "is_space c = (let n = (of_char c :: nat) in (9 \<le> n \<and> n \<le> 13) \<or> n = 32)"

definition strip :: "string \<Rightarrow> string" where
  "strip s = rev (dropWhile is_space (rev (dropWhile is_space s)))"

definition digit_val :: "char \<Rightarrow> int option" where
  "digit_val c = (let n = (of_char c :: int) in if 48 \<le> n \<and> n \<le> 57 then Some (n - 48) else None)"

definition is_digit :: "char \<Rightarrow> bool" where
  "is_digit c = (digit_val c \<noteq> None)"

fun parse_digits :: "int \<Rightarrow> bool \<Rightarrow> string \<Rightarrow> int option" where
  "parse_digits acc after_digit [] = (if after_digit then Some acc else None)"
| "parse_digits acc after_digit (c # cs) =
     (if c = CHR ''_'' then
        (if after_digit \<and> cs \<noteq> [] then parse_digits acc False cs else None)
      else
        (case digit_val c of
           None \<Rightarrow> None
         | Some d \<Rightarrow> parse_digits (10 * acc + d) True cs))"

definition py_int :: "string \<Rightarrow> py_error + int" where
  "py_int s =
     (let t = strip s;
          (negative, body) =
            (case t of
               [] \<Rightarrow> (False, [])
             | c # cs \<Rightarrow>
                 if c = CHR ''-'' then (True, cs)
                 else if c = CHR ''+'' then (False, cs)
                 else (False, t))
      in if int (length (filter is_digit body)) > 4300 then Inl ValueError
         else
           (case parse_digits 0 False body of
              None \<Rightarrow> Inl ValueError
            | Some n \<Rightarrow> Inr (if negative then - n else n)))"

text \<open>\<open>str(n)\<close>: the decimal digits of the magnitude, after a sign for a negative
  number; an \<open>int\<close> of more than 4300 digits is refused.\<close>

function int_digits :: "int \<Rightarrow> string" where
  "int_digits n =
     (if n < 10 then [char_of (48 + n)]
      else int_digits (n div 10) @ [char_of (48 + n mod 10)])"
  by pat_completeness auto
termination
  by (relation "measure nat") auto

declare int_digits.simps [simp del]

definition py_str :: "int \<Rightarrow> py_error + string" where
  "py_str n =
     (let ds = int_digits \<bar>n\<bar>
      in if int (length ds) > 4300 then Inl ValueError
         else Inr (if n < 0 then CHR ''-'' # ds else ds))"

text \<open>\<open>is_owner\<close>: \<open>str(user_id) == ADMIN_USER_ID\<close>.\<close>

definition is_owner :: "env \<Rightarrow> int \<Rightarrow> py_error + bool" where
  "is_owner e user_id =
     (case py_str user_id of
        Inl ex \<Rightarrow> Inl ex
      | Inr s \<Rightarrow> Inr (s = ADMIN_USER_ID e))"

subsection \<open>\<open>verify_all_members\<close>\<close>

text \<open>The variables of one call of \<open>verify_all_members\<close>: the member document in memory,
  the persisted state, what has been done to the outside so far, and the counters.\<close>

record pass_state =
  user_data :: "user_record document document"
  world_now :: world
  events :: "event list"
  verified_count :: nat
  removed_count :: nat
  error_count :: nat

text \<open>The inner \<open>try\<close>: ban, unban, clear the flag, save. The first component is the
  exception that leaves the block, if any.\<close>

definition remove_member_try :: "env \<Rightarrow> string \<Rightarrow> string \<Rightarrow> int \<Rightarrow> pass_state \<Rightarrow> py_error option \<times> pass_state" where
  "remove_member_try e group_id user_id uid st =
     (let st1 = st\<lparr>events := events st @ [BanChatMember group_id uid]\<rparr>
      in if \<not> ban_chat_member e group_id uid then (Some TelegramError, st1)
         else
           (let st2 = st1\<lparr>events := events st1 @ [UnbanChatMember group_id uid]\<rparr>
            in if \<not> unban_chat_member e group_id uid then (Some TelegramError, st2)
               else
                 (case map_of (user_data st2) group_id of
                    None \<Rightarrow> (Some KeyError, st2)
                  | Some members \<Rightarrow>
                      (case map_of members user_id of
                         None \<Rightarrow> (Some KeyError, st2)
                       | Some info \<Rightarrow>
                           (let ud = AList.update group_id
                                       (AList.update user_id (info\<lparr>verified := Some False\<rparr>) members)
                                       (user_data st2);
                                w = world_now st2;
                                st3 = st2\<lparr>user_data := ud, events := events st2 @ [SaveUserData ud]\<rparr>
                            in case save_json_file e (write_result e (writes w)) (user_data_store w) ud of
                                 Inl ex \<Rightarrow> (Some ex, st3)
                               | Inr (r, ok) \<Rightarrow>
                                   (None, st3\<lparr>world_now := w\<lparr>user_data_store := r, writes := Suc (writes w)\<rparr>,
                                               removed_count := Suc (removed_count st3)\<rparr>))))))"

text \<open>The body of the loop over \<open>group_users.items()\<close>. The first component is the
  exception that leaves the loop, if any.\<close>

definition verify_member :: "env \<Rightarrow> string \<Rightarrow> group_config \<Rightarrow> string \<Rightarrow> user_record \<Rightarrow> pass_state \<Rightarrow> py_error option \<times> pass_state" where
  "verify_member e group_id cfg user_id user_info st =
     (case py_int user_id of
        Inl ex \<Rightarrow> (Some ex, st)
      | Inr uid \<Rightarrow>
          (case is_owner e uid of
             Inl ex \<Rightarrow> (Some ex, st)
           | Inr owner \<Rightarrow>
               if owner then (None, st)
               else if verified user_info = Some True then
                 (case address user_info of
                    None \<Rightarrow> (Some KeyError, st)
                  | Some user_address \<Rightarrow>
                      (case verify_user_balance e cfg user_address of
                         (Inl ex, evs) \<Rightarrow> (Some ex, st\<lparr>events := events st @ evs\<rparr>)
                       | (Inr has_balance, evs) \<Rightarrow>
                           (let st1 = st\<lparr>events := events st @ evs\<rparr>
                            in if \<not> has_balance then
                                 (case remove_member_try e group_id user_id uid st1 of
                                    (None, st2) \<Rightarrow> (None, st2)
                                  | (Some ex, st2) \<Rightarrow> (None, st2\<lparr>error_count := Suc (error_count st2)\<rparr>))
                               else (None, st1\<lparr>verified_count := Suc (verified_count st1)\<rparr>))))
               else (None, st)))"

fun members_loop :: "env \<Rightarrow> string \<Rightarrow> group_config \<Rightarrow> user_record document \<Rightarrow> pass_state \<Rightarrow> py_error option \<times> pass_state" where
  "members_loop e group_id cfg [] st = (None, st)"
| "members_loop e group_id cfg ((user_id, user_info) # rest) st =
     (case verify_member e group_id cfg user_id user_info st of
        (Some ex, st') \<Rightarrow> (Some ex, st')
      | (None, st') \<Rightarrow> members_loop e group_id cfg rest st')"

text \<open>\<open>verify_all_members\<close> returns nothing and lets no exception out; the model
  returns the exception its outer \<open>except\<close> swallowed, if any, and the final state.\<close>

definition verify_all_members :: "env \<Rightarrow> string \<Rightarrow> group_config \<Rightarrow> world \<Rightarrow> py_error option \<times> pass_state" where
  "verify_all_members e group_id cfg w =
     (let st0 = \<lparr>user_data = [], world_now = w, events = [],
                 verified_count = 0, removed_count = 0, error_count = 0\<rparr>
      in case load_json_file e (user_data_store w) of
           Inl ex \<Rightarrow> (Some ex, st0)
         | Inr ud \<Rightarrow>
             (let group_users = (case map_of ud group_id of None \<Rightarrow> [] | Some m \<Rightarrow> m)
              in members_loop e group_id cfg group_users (st0\<lparr>user_data := ud\<rparr>)))"

subsection \<open>\<open>periodic_verification\<close>\<close>

fun groups_loop :: "env \<Rightarrow> group_config document \<Rightarrow> world \<Rightarrow> event list \<Rightarrow> py_error + (world \<times> event list)" where
  "groups_loop e [] w evs = Inr (w, evs)"
| "groups_loop e ((group_id, group_cfg) # rest) w evs =
     (case load_json_file e (config_store w) of
        Inl ex \<Rightarrow> Inl ex
      | Inr fresh_config \<Rightarrow>
          (let fresh_group_config = (case map_of fresh_config group_id of None \<Rightarrow> group_cfg | Some c \<Rightarrow> c)
           in case verify_all_members e group_id fresh_group_config w of
                (ex, st) \<Rightarrow> groups_loop e rest (world_now st) (evs @ events st)))"

definition periodic_verification :: "env \<Rightarrow> world \<Rightarrow> py_error + (world \<times> event list)" where
  "periodic_verification e w =
     (case load_json_file e (config_store w) of
        Inl ex \<Rightarrow> Inl ex
      | Inr config \<Rightarrow>
          if config = [] then Inr (w, [])
          else groups_loop e config w [])"

section \<open>Notions used in the statements\<close>

text \<open>The invariant of a rejection record, of a document and of what is stored.\<close>

definition record_consistent :: "rejection_record \<Rightarrow> bool" where
  "record_consistent r = (blocked r = (rejection_count r \<ge> 3))"

definition document_consistent :: "rejection_record document \<Rightarrow> bool" where
  "document_consistent d = list_all (\<lambda>(k, r). record_consistent r) d"

definition stored_consistent :: "rejection_record stored \<Rightarrow> bool" where
  "stored_consistent s = (case s of Content d \<Rightarrow> document_consistent d | _ \<Rightarrow> True)"

definition world_consistent :: "world \<Rightarrow> bool" where
  "world_consistent w =
     (stored_consistent (disk_file (rejected_store w)) \<and> stored_consistent (db_row (rejected_store w)))"

text \<open>The states of the \<open>rejected_groups\<close> document that the tracker's two mutating
  operations can produce, from a state where the document does not exist yet, under any
  environment at each step (any clock, any arguments, any outcome of the write).\<close>

definition untouched :: "world \<Rightarrow> bool" where
  "untouched w = (disk_file (rejected_store w) = Missing \<and> db_row (rejected_store w) = Missing)"

inductive reachable :: "world \<Rightarrow> bool" where
  start: "untouched w \<Longrightarrow> reachable w"
| after_track:
    "reachable w \<Longrightarrow> track_rejection e group_id gname admin_id admin_name w = Inr (w', b)
     \<Longrightarrow> reachable w'"
| after_reset:
    "reachable w \<Longrightarrow> reset_rejection_count e group_id w = Inr (w', b) \<Longrightarrow> reachable w'"

text \<open>\<open>user_data[group_id][user_id]\<close> as a lookup that may find nothing.\<close>

definition member_record :: "user_record document document \<Rightarrow> string \<Rightarrow> string \<Rightarrow> user_record option" where
  "member_record ud group_id user_id =
     (case map_of ud group_id of None \<Rightarrow> None | Some members \<Rightarrow> map_of members user_id)"

text \<open>The events that are requests to a balance provider.\<close>

definition is_provider_event :: "event \<Rightarrow> bool" where
  "is_provider_event ev =
     (case ev of
        MoralisBalances wallet chain tok \<Rightarrow> True
      | MoralisMetadata chain tok \<Rightarrow> True
      | EtherscanGet url \<Rightarrow> True
      | _ \<Rightarrow> False)"

text \<open>A member entry the loop can process without an exception: the key is the text of
  an integer, and a verified member has an address.\<close>

definition member_wellformed :: "string \<times> user_record \<Rightarrow> bool" where
  "member_wellformed m =
     ((case py_int (fst m) of Inl ex \<Rightarrow> False | Inr uid \<Rightarrow> True)
      \<and> (verified (snd m) = Some True \<longrightarrow> address (snd m) \<noteq> None))"

text \<open>The primary provider has failed for a wallet and token when it is not usable in
  this process or \<open>get_token_balance_moralis\<close> returns no positive balance: \<open>0.0\<close> is
  what it returns on any exception, when no entry matches the token, and for a zero
  balance. The secondary provider has failed when \<open>get_token_balance_etherscan\<close>
  returns \<open>0.0\<close> (no key, or any exception) or a raw balance that is not positive.\<close>

definition primary_failed :: "env \<Rightarrow> string \<Rightarrow> string \<Rightarrow> string \<Rightarrow> bool" where
  "primary_failed e wallet tok chain =
     (\<not> moralis_configured e \<or> fst (get_token_balance_moralis e wallet tok (chain_map_get chain)) \<le> 0)"

definition secondary_failed :: "env \<Rightarrow> string \<Rightarrow> string \<Rightarrow> bool" where
  "secondary_failed e wallet tok =
     (case fst (get_token_balance_etherscan e wallet tok) of FloatZero \<Rightarrow> True | RawInt n \<Rightarrow> n \<le> 0)"

text \<open>The requests made to the primary provider by one check.\<close>

definition primary_events :: "env \<Rightarrow> string \<Rightarrow> string \<Rightarrow> string \<Rightarrow> event list" where
  "primary_events e wallet tok chain =
     (if moralis_configured e then [MoralisBalances wallet (chain_map_get chain) tok] else [])"

text \<open>What a check answers when it is decided by the fallback block alone.\<close>

definition fallback_verdict :: "env \<Rightarrow> string \<Rightarrow> string \<Rightarrow> string \<Rightarrow> rat \<Rightarrow> (py_error + bool) \<times> event list" where
  "fallback_verdict e wallet tok chain minb =
     (case etherscan_fallback e wallet tok chain of
        (Inl ex, evs) \<Rightarrow> (Inr False, evs)
      | (Inr b, evs) \<Rightarrow> (Inr (b \<ge> minb), evs))"

subsection \<open>Concrete environments and states\<close>

text \<open>A process with no provider keys, the file backend, a disk that takes every write
  and a chat platform that accepts every call.\<close>

definition env_offline :: env where
  "env_offline =
     \<lparr> DATABASE_URL = None, ADMIN_USER_ID = ''1825755152'',
       MORALIS_API_KEY = None, ETHERSCAN_API_KEY = None,
       clock = 1700000000,
       write_result = (\<lambda>n. WriteOk),
       get_wallet_token_balances = (\<lambda>wallet chain tok. Inl ProviderError),
       get_token_metadata = (\<lambda>chain tok. Inl ProviderError),
       http_get_json = (\<lambda>url. Inl ProviderError),
       ban_chat_member = (\<lambda>chat uid. True),
       unban_chat_member = (\<lambda>chat uid. True) \<rparr>"

definition no_resource :: "'v resource" where
  "no_resource = \<lparr> disk_file = Missing, db_row = Missing \<rparr>"

definition empty_world :: world where
  "empty_world =
     \<lparr> config_store = no_resource, user_data_store = no_resource,
       rejected_store = no_resource, writes = 0 \<rparr>"

text \<open>The same process on a disk that refuses every write (\<open>open\<close> raises), and the
  state it leaves after one attempt on \<open>empty_world\<close>.\<close>

definition env_readonly :: env where
  "env_readonly = env_offline \<lparr> write_result := (\<lambda>n. WriteFailsEarly) \<rparr>"

definition world_unsaved :: world where
  "world_unsaved = empty_world \<lparr> writes := 1 \<rparr>"

text \<open>A group that asks for a balance of zero, and one that asks for 1.0.\<close>

definition cfg_zero :: group_config where
  "cfg_zero = \<lparr> chain_id = Some ''eth'', token = Some ''0xT'', min_balance = Some 0, verifier = None \<rparr>"

definition cfg_one :: group_config where
  "cfg_one = \<lparr> chain_id = Some ''bsc'', token = Some ''0xT'', min_balance = Some 1, verifier = None \<rparr>"

text \<open>A process with only the Etherscan key, where Etherscan answers a raw balance of
  150 and the token's metadata say 2 decimals.\<close>

definition env_etherscan :: env where
  "env_etherscan =
     env_offline \<lparr> ETHERSCAN_API_KEY := Some ''KEY'',
                   http_get_json := (\<lambda>url. Inr (Val 150)),
                   get_token_metadata := (\<lambda>chain tok. Inr (Val 2)) \<rparr>"


text \<open>A state with one configured group that the tracker has blocked, and two verified
  members in it: the owner and member 7. \<open>env_denied\<close> is \<open>env_offline\<close> with a chat
  platform that refuses every ban.\<close>

definition member_owner :: user_record where
  "member_owner =
     \<lparr> address = Some ''0xB'', verified = Some True, last_verified = None, verification_tx = Some True \<rparr>"

definition member_seven :: user_record where
  "member_seven =
     \<lparr> address = Some ''0xA'', verified = Some True, last_verified = None, verification_tx = Some True \<rparr>"

definition blocked_record :: rejection_record where
  "blocked_record =
     \<lparr> rejection_count = 3, group_name = ''Test Group'', last_admin_id = Some ''123456789'',
       last_admin_name = ''Test Admin'', first_rejection = 1699990000, last_rejection = 1699999000,
       blocked = True \<rparr>"

definition members_doc :: "user_record document document" where
  "members_doc = [(''-100'', [(''1825755152'', member_owner), (''7'', member_seven)])]"

definition world_blocked :: world where
  "world_blocked =
     \<lparr> config_store = \<lparr> disk_file = Content [(''-100'', cfg_one)], db_row = Missing \<rparr>,
       user_data_store = \<lparr> disk_file = Content members_doc, db_row = Missing \<rparr>,
       rejected_store = \<lparr> disk_file = Content [(''-100'', blocked_record)], db_row = Missing \<rparr>,
       writes = 0 \<rparr>"

definition env_denied :: env where
  "env_denied = env_offline \<lparr> ban_chat_member := (\<lambda>chat uid. False) \<rparr>"

text \<open>What one pass over \<open>world_blocked\<close> leaves when the platform accepts the calls:
  member 7 of the blocked group has been removed and its flag cleared.\<close>

definition members_doc_after :: "user_record document document" where
  "members_doc_after =
     [(''-100'', [(''1825755152'', member_owner), (''7'', member_seven\<lparr>verified := Some False\<rparr>)])]"

definition world_after :: world where
  "world_after =
     world_blocked \<lparr> user_data_store := \<lparr> disk_file = Content members_doc_after, db_row = Missing \<rparr>,
                     writes := 1 \<rparr>"

definition events_after :: "event list" where
  "events_after =
     [MoralisMetadata ''bsc'' ''0xT'', BanChatMember ''-100'' 7, UnbanChatMember ''-100'' 7,
      SaveUserData members_doc_after]"

definition pass_after :: pass_state where
  "pass_after =
     \<lparr> user_data = members_doc_after, world_now = world_after, events = events_after,
       verified_count = 0, removed_count = 1, error_count = 0 \<rparr>"

text \<open>What one pass over the group leaves when the platform refuses the ban: the call
  has been made, the document and the store are as before, one error is counted.\<close>

definition pass_refused :: pass_state where
  "pass_refused =
     \<lparr> user_data = members_doc, world_now = world_blocked,
       events = [MoralisMetadata ''bsc'' ''0xT'', BanChatMember ''-100'' 7],
       verified_count = 0, removed_count = 0, error_count = 1 \<rparr>"

subsection \<open>The two kinds of loop iteration\<close>

text \<open>An iteration of the member loop is either a removal (ban, unban, flag cleared,
  document saved) or quiet: it leaves the document and the store alone and adds only
  provider requests, or the calls of a removal that failed.\<close>

definition removal_of :: "env \<Rightarrow> string \<Rightarrow> string \<Rightarrow> pass_state \<Rightarrow> pass_state \<Rightarrow> bool" where
  "removal_of e g k st st' =
     (\<exists>uid members info r ok pevs.
        py_int k = Inr uid \<and> is_owner e uid = Inr False \<and> ban_chat_member e g uid \<and> unban_chat_member e g uid
        \<and> map_of (user_data st) g = Some members \<and> map_of members k = Some info
        \<and> (\<forall>ev \<in> set pevs. is_provider_event ev)
        \<and> save_json_file e (write_result e (writes (world_now st))) (user_data_store (world_now st))
             (AList.update g (AList.update k (info\<lparr>verified := Some False\<rparr>) members) (user_data st)) = Inr (r, ok)
        \<and> st' = st\<lparr>user_data := AList.update g (AList.update k (info\<lparr>verified := Some False\<rparr>) members) (user_data st),
                    world_now := (world_now st)\<lparr>user_data_store := r, writes := Suc (writes (world_now st))\<rparr>,
                    events := events st @ pevs @ [BanChatMember g uid, UnbanChatMember g uid,
                       SaveUserData (AList.update g (AList.update k (info\<lparr>verified := Some False\<rparr>) members) (user_data st))],
                    removed_count := Suc (removed_count st)\<rparr>)"

definition quiet_step :: "env \<Rightarrow> string \<Rightarrow> string \<Rightarrow> pass_state \<Rightarrow> pass_state \<Rightarrow> bool" where
  "quiet_step e g k st st' =
     (\<exists>evs. user_data st' = user_data st \<and> world_now st' = world_now st
        \<and> events st' = events st @ evs
        \<and> (\<forall>ev \<in> set evs. is_provider_event ev
              \<or> (\<exists>uid. py_int k = Inr uid \<and> is_owner e uid = Inr False
                    \<and> (\<not> ban_chat_member e g uid \<or> \<not> unban_chat_member e g uid \<or> member_record (user_data st) g k = None)
                    \<and> (ev = BanChatMember g uid \<or> ev = UnbanChatMember g uid))))"

text \<open>Nothing done so far touches an owner: no ban or unban names one, and the records
  under keys that denote an owner are those of the document \<open>ud0\<close>, in memory and in
  every document handed to a save.\<close>

definition owner_untouched :: "env \<Rightarrow> user_record document document \<Rightarrow> pass_state \<Rightarrow> bool" where
  "owner_untouched e ud0 s =
     (\<forall>owner. is_owner e owner = Inr True \<longrightarrow>
        (\<forall>g. BanChatMember g owner \<notin> set (events s) \<and> UnbanChatMember g owner \<notin> set (events s))
        \<and> (\<forall>g k. py_int k = Inr owner \<longrightarrow>
              member_record (user_data s) g k = member_record ud0 g k
              \<and> (\<forall>d. SaveUserData d \<in> set (events s) \<longrightarrow> member_record d g k = member_record ud0 g k)))"

text \<open>A document carries the owner's records of \<open>ud0\<close>; a list of events respects the
  owner with regard to \<open>ud0\<close>: no ban or unban names an owner and every saved document
  carries the owner's records of \<open>ud0\<close>; a persisted state agrees with \<open>ud0\<close> when
  what it loads is empty or carries the owner's records of \<open>ud0\<close>.\<close>

definition owner_same :: "env \<Rightarrow> user_record document document \<Rightarrow> user_record document document \<Rightarrow> bool" where
  "owner_same e ud0 d =
     (\<forall>owner g k. is_owner e owner = Inr True \<and> py_int k = Inr owner \<longrightarrow> member_record d g k = member_record ud0 g k)"

definition events_respect_owner :: "env \<Rightarrow> user_record document document \<Rightarrow> event list \<Rightarrow> bool" where
  "events_respect_owner e ud0 evs =
     ((\<forall>owner g. is_owner e owner = Inr True \<longrightarrow> BanChatMember g owner \<notin> set evs \<and> UnbanChatMember g owner \<notin> set evs)
      \<and> (\<forall>d. SaveUserData d \<in> set evs \<longrightarrow> owner_same e ud0 d))"

definition store_agrees :: "env \<Rightarrow> user_record document document \<Rightarrow> world \<Rightarrow> bool" where
  "store_agrees e ud0 w =
     (\<forall>d. load_json_file e (user_data_store w) = Inr d \<longrightarrow> d = [] \<or> owner_same e ud0 d)"

text \<open>What the stored member document can be in the middle of a pass that began with
  \<open>d\<close> loaded: still \<open>d\<close>, a document the pass has saved, or nothing readable.\<close>

definition store_tracks :: "env \<Rightarrow> user_record document document \<Rightarrow> pass_state \<Rightarrow> bool" where
  "store_tracks e d s =
     (\<forall>dl. load_json_file e (user_data_store (world_now s)) = Inr dl \<longrightarrow>
        dl = [] \<or> dl = d \<or> SaveUserData dl \<in> set (events s))"

text \<open>Between two states of a pass, only members other than the one with key \<open>k\<close> and
  number \<open>n\<close> were handled: no ban or unban of \<open>n\<close> was added, and the record under \<open>k\<close>
  is the same in memory and in every document saved in between.\<close>

definition others_only :: "string \<Rightarrow> int \<Rightarrow> string \<Rightarrow> pass_state \<Rightarrow> pass_state \<Rightarrow> bool" where
  "others_only g n k s0 s =
     (\<exists>evs. events s = events s0 @ evs
        \<and> BanChatMember g n \<notin> set evs \<and> UnbanChatMember g n \<notin> set evs
        \<and> (\<forall>d. SaveUserData d \<in> set evs \<longrightarrow> member_record d g k = member_record (user_data s0) g k)
        \<and> member_record (user_data s) g k = member_record (user_data s0) g k)"

text \<open>The stored member document is the one in memory.\<close>

definition store_synced :: "env \<Rightarrow> pass_state \<Rightarrow> bool" where
  "store_synced e s = (load_json_file e (user_data_store (world_now s)) = Inr (user_data s))"

section \<open>The store and the tracker: proofs\<close>

lemma load_total: "\<exists>d. load_json_file e r = Inr d"
  by (auto simp: load_json_file_def db_load_def read_json_def split: stored.splits)

lemma save_total: "\<exists>r' b. save_json_file e out r d = Inr (r', b) \<and> b = (out = WriteOk)"
  by (auto simp: save_json_file_def db_save_def write_json_def split: write_outcome.splits)

lemma load_after_save:
  "save_json_file e WriteOk r d = Inr (r', b) \<Longrightarrow> load_json_file e r' = Inr d"
  by (auto simp: save_json_file_def db_save_def write_json_def load_json_file_def db_load_def read_json_def split: if_splits)

lemma document_consistent_update:
  "document_consistent d \<Longrightarrow> record_consistent r \<Longrightarrow> document_consistent (AList.update k r d)"
  by (induction d) (auto simp: document_consistent_def)

lemma document_consistent_lookup:
  "document_consistent d \<Longrightarrow> map_of d k = Some r \<Longrightarrow> record_consistent r"
  by (induction d) (auto simp: document_consistent_def split: if_splits)

lemma strike_count: "rejection_count (strike e gn a an r) = rejection_count r + 1"
  by (simp add: strike_def Let_def)

lemma strike_blocked: "blocked (strike e gn a an r) = (rejection_count r + 1 \<ge> 3 \<or> blocked r)"
  by (simp add: strike_def Let_def)

lemma strike_consistent: "record_consistent r \<Longrightarrow> record_consistent (strike e gn a an r)"
  by (auto simp: record_consistent_def strike_count strike_blocked)

lemma new_record_consistent: "record_consistent (new_rejection_record e g gn a an)"
  by (simp add: record_consistent_def new_rejection_record_def)

lemma load_consistent:
  "world_consistent w \<Longrightarrow> load_json_file e (rejected_store w) = Inr d \<Longrightarrow> document_consistent d"
  by (auto simp: world_consistent_def stored_consistent_def load_json_file_def db_load_def read_json_def document_consistent_def
      split: if_splits stored.splits)

lemma save_consistent:
  "world_consistent w \<Longrightarrow> document_consistent d \<Longrightarrow> save_json_file e out (rejected_store w) d = Inr (st, ok)
   \<Longrightarrow> world_consistent (w\<lparr>rejected_store := st, writes := n\<rparr>)"
  by (auto simp: world_consistent_def stored_consistent_def save_json_file_def db_save_def write_json_def
      split: if_splits write_outcome.splits)

lemma track_consistent:
  assumes "world_consistent w" "track_rejection e g gn a an w = Inr (w', b)"
  shows "world_consistent w'"
proof -
  obtain d where d: "load_json_file e (rejected_store w) = Inr d" using load_total by blast
  have dc: "document_consistent d" using assms(1) d by (rule load_consistent)
  define d1 where "d1 = (if map_of d g = None then AList.update g (new_rejection_record e g gn a an) d else d)"
  have d1c: "document_consistent d1"
    unfolding d1_def using dc by (simp add: document_consistent_update new_record_consistent)
  from assms(2) d obtain r0 st ok where r0: "map_of d1 g = Some r0"
    and sv: "save_json_file e (write_result e (writes w)) (rejected_store w) (AList.update g (strike e gn a an r0) d1) = Inr (st, ok)"
    and w': "w' = w\<lparr>rejected_store := st, writes := Suc (writes w)\<rparr>"
    by (auto simp: track_rejection_def Let_def d1_def split: option.splits sum.splits if_splits)
  have "record_consistent (strike e gn a an r0)"
    using d1c r0 by (blast intro: strike_consistent document_consistent_lookup)
  then have "document_consistent (AList.update g (strike e gn a an r0) d1)"
    using d1c by (rule document_consistent_update[rotated])
  then show ?thesis using save_consistent[OF assms(1) _ sv] w' by simp
qed

lemma reset_consistent:
  assumes "world_consistent w" "reset_rejection_count e g w = Inr (w', b)"
  shows "world_consistent w'"
proof -
  obtain d where d: "load_json_file e (rejected_store w) = Inr d" using load_total by blast
  have dc: "document_consistent d" using assms(1) d by (rule load_consistent)
  show ?thesis
  proof (cases "map_of d g")
    case None
    then show ?thesis using assms d by (simp add: reset_rejection_count_def)
  next
    case (Some r)
    have "record_consistent (r\<lparr>rejection_count := 0, blocked := False\<rparr>)"
      by (simp add: record_consistent_def)
    then have dc': "document_consistent (AList.update g (r\<lparr>rejection_count := 0, blocked := False\<rparr>) d)"
      using dc by (rule document_consistent_update[rotated])
    from assms(2) d Some obtain st ok where
      sv: "save_json_file e (write_result e (writes w)) (rejected_store w) (AList.update g (r\<lparr>rejection_count := 0, blocked := False\<rparr>) d) = Inr (st, ok)"
      and w': "w' = w\<lparr>rejected_store := st, writes := Suc (writes w)\<rparr>"
      by (auto simp: reset_rejection_count_def Let_def split: sum.splits)
    show ?thesis using save_consistent[OF assms(1) dc' sv] w' by simp
  qed
qed

lemma reachable_consistent: "reachable w \<Longrightarrow> world_consistent w"
proof (induction rule: reachable.induct)
  case (start w)
  then show ?case by (simp add: untouched_def world_consistent_def stored_consistent_def)
next
  case (after_track w e group_id gname admin_id admin_name w' b)
  then show ?case by (blast intro: track_consistent)
next
  case (after_reset w e group_id w' b)
  then show ?case by (blast intro: reset_consistent)
qed

lemma load_clock [simp]: "load_json_file (e\<lparr>clock := t\<rparr>) r = load_json_file e r"
  by (simp add: load_json_file_def)

lemma count_clock [simp]: "get_rejection_count (e\<lparr>clock := t\<rparr>) g w = get_rejection_count e g w"
  by (simp add: get_rejection_count_def)

lemma map_of_update_same: "map_of (AList.update k v d) k = Some v"
  by (simp add: update_conv')

lemma track_step:
  assumes wr: "write_result e (writes w) = WriteOk"
      and ld: "load_json_file e (rejected_store w) = Inr d"
      and r: "r = strike e gn a an (case map_of d g of None \<Rightarrow> new_rejection_record e g gn a an | Some r0 \<Rightarrow> r0)"
  shows "\<exists>w' d'. track_rejection e g gn a an w = Inr (w', blocked r)
           \<and> load_json_file e (rejected_store w') = Inr d' \<and> map_of d' g = Some r
           \<and> writes w' = Suc (writes w)"
proof -
  define d1 where "d1 = (if map_of d g = None then AList.update g (new_rejection_record e g gn a an) d else d)"
  define r0 where "r0 = (case map_of d g of None \<Rightarrow> new_rejection_record e g gn a an | Some r0 \<Rightarrow> r0)"
  have m1: "map_of d1 g = Some r0"
    by (auto simp: d1_def r0_def map_of_update_same)
  obtain st ok where sv: "save_json_file e WriteOk (rejected_store w) (AList.update g r d1) = Inr (st, ok)"
    using save_total by blast
  have l': "load_json_file e st = Inr (AList.update g r d1)"
    using sv by (rule load_after_save)
  have "track_rejection e g gn a an w = Inr (w\<lparr>rejected_store := st, writes := Suc (writes w)\<rparr>, blocked r)"
    using ld m1 sv wr by (simp add: track_rejection_def Let_def d1_def[symmetric] r r0_def[symmetric])
  then show ?thesis using l' by (auto simp: map_of_update_same)
qed

lemma read_count:
  "load_json_file e (rejected_store w) = Inr d \<Longrightarrow> map_of d g = Some r
   \<Longrightarrow> get_rejection_count e g w = Inr (rejection_count r) \<and> is_group_blocked e g w = Inr (blocked r)"
  by (simp add: get_rejection_count_def is_group_blocked_def)


section \<open>The store and the tracker: the claims\<close>

text \<open>
  C8. For every resource and every environment, \<open>load_json_file\<close> raises nothing and
  returns a document; it returns the empty mapping when the resource does not exist or
  cannot be read or parsed, in the file backend and in the database backend. For every
  resource and document, \<open>save_json_file\<close> raises nothing and returns \<open>True\<close> exactly
  when the write succeeded, \<open>False\<close> on either kind of write failure. The database
  branch is the one modelled from the spec.
\<close>

theorem store_never_raises:
  "(\<exists>d. load_json_file e r = Inr d)
   \<and> (\<not> truthy (DATABASE_URL e) \<and> disk_file r \<in> {Missing, Corrupt} \<longrightarrow> load_json_file e r = Inr [])
   \<and> (truthy (DATABASE_URL e) \<and> db_row r \<in> {Missing, Corrupt} \<longrightarrow> load_json_file e r = Inr [])
   \<and> (\<exists>r'. save_json_file e out r d = Inr (r', out = WriteOk))"
  using save_total[of e out r d]
  by (auto simp: load_json_file_def db_load_def read_json_def split: stored.splits)

theorem store_never_raises_witness:
  "(\<exists>d. load_json_file env_offline (no_resource :: rejection_record resource) = Inr d)
   \<and> (\<not> truthy (DATABASE_URL env_offline)
        \<and> disk_file (no_resource :: rejection_record resource) \<in> {Missing, Corrupt})
   \<and> load_json_file env_offline (no_resource :: rejection_record resource) = Inr []
   \<and> (\<exists>r'. save_json_file env_offline WriteFailsLate (no_resource :: rejection_record resource) [] = Inr (r', False))"
  using store_never_raises [of env_offline "no_resource :: rejection_record resource" WriteFailsLate "[]"]
  by (simp add: env_offline_def no_resource_def truthy_def)

text \<open>
  C1, as amended. Start from a state where the group has no record in the
  \<open>rejected_groups\<close> document, and let the save at the end of each of the three calls
  succeed. Then \<open>get_rejection_count\<close> is 0 and \<open>is_group_blocked\<close> is false; the first
  call of \<open>track_rejection\<close> returns false and leaves count 1, not blocked; the second
  returns false and leaves count 2, not blocked; the third returns true and leaves
  count 3, blocked. The three calls may happen at different times and with different
  names and admins. \<open>track_rejection\<close> drops the result of \<open>save_json_file\<close>, so a save
  that fails leaves the stored count behind: the closed instance after the witness.
\<close>

theorem three_strikes_block:
  assumes fresh: "load_json_file e (rejected_store w0) = Inr d0" "map_of d0 group_id = None"
      and ok: "write_result e (writes w0) = WriteOk"
              "write_result e (Suc (writes w0)) = WriteOk"
              "write_result e (Suc (Suc (writes w0))) = WriteOk"
  shows "get_rejection_count e group_id w0 = Inr 0 \<and> is_group_blocked e group_id w0 = Inr False \<and>
     (\<exists>w1 w2 w3.
        track_rejection (e\<lparr>clock := t1\<rparr>) group_id gn1 a1 an1 w0 = Inr (w1, False) \<and>
        get_rejection_count e group_id w1 = Inr 1 \<and> is_group_blocked e group_id w1 = Inr False \<and>
        track_rejection (e\<lparr>clock := t2\<rparr>) group_id gn2 a2 an2 w1 = Inr (w2, False) \<and>
        get_rejection_count e group_id w2 = Inr 2 \<and> is_group_blocked e group_id w2 = Inr False \<and>
        track_rejection (e\<lparr>clock := t3\<rparr>) group_id gn3 a3 an3 w2 = Inr (w3, True) \<and>
        get_rejection_count e group_id w3 = Inr 3 \<and> is_group_blocked e group_id w3 = Inr True)"
proof -
  have init: "get_rejection_count e group_id w0 = Inr 0 \<and> is_group_blocked e group_id w0 = Inr False"
    using fresh by (simp add: get_rejection_count_def is_group_blocked_def)
  let ?e1 = "e\<lparr>clock := t1\<rparr>" and ?e2 = "e\<lparr>clock := t2\<rparr>" and ?e3 = "e\<lparr>clock := t3\<rparr>"
  define r1 where "r1 = strike ?e1 gn1 a1 an1 (new_rejection_record ?e1 group_id gn1 a1 an1)"
  have r1: "rejection_count r1 = 1" "\<not> blocked r1"
    by (simp_all add: r1_def strike_count strike_blocked new_rejection_record_def)
  obtain w1 d1 where s1: "track_rejection ?e1 group_id gn1 a1 an1 w0 = Inr (w1, blocked r1)"
      and l1: "load_json_file e (rejected_store w1) = Inr d1" and m1: "map_of d1 group_id = Some r1"
      and n1: "writes w1 = Suc (writes w0)"
    using track_step[of ?e1 w0 d0 r1 gn1 a1 an1 group_id] fresh ok(1) by (auto simp: r1_def)
  define r2 where "r2 = strike ?e2 gn2 a2 an2 r1"
  have r2: "rejection_count r2 = 2" "\<not> blocked r2"
    using r1 by (simp_all add: r2_def strike_count strike_blocked)
  obtain w2 d2 where s2: "track_rejection ?e2 group_id gn2 a2 an2 w1 = Inr (w2, blocked r2)"
      and l2: "load_json_file e (rejected_store w2) = Inr d2" and m2: "map_of d2 group_id = Some r2"
      and n2: "writes w2 = Suc (writes w1)"
    using track_step[of ?e2 w1 d1 r2 gn2 a2 an2 group_id] l1 m1 ok(2) n1 by (auto simp: r2_def)
  define r3 where "r3 = strike ?e3 gn3 a3 an3 r2"
  have r3: "rejection_count r3 = 3" "blocked r3"
    using r2 by (simp_all add: r3_def strike_count strike_blocked)
  obtain w3 d3 where s3: "track_rejection ?e3 group_id gn3 a3 an3 w2 = Inr (w3, blocked r3)"
      and l3: "load_json_file e (rejected_store w3) = Inr d3" and m3: "map_of d3 group_id = Some r3"
    using track_step[of ?e3 w2 d2 r3 gn3 a3 an3 group_id] l2 m2 ok(3) n1 n2 by (auto simp: r3_def)
  have c1: "get_rejection_count e group_id w1 = Inr 1 \<and> is_group_blocked e group_id w1 = Inr False"
    using read_count[OF l1 m1] r1 by simp
  have c2: "get_rejection_count e group_id w2 = Inr 2 \<and> is_group_blocked e group_id w2 = Inr False"
    using read_count[OF l2 m2] r2 by simp
  have c3: "get_rejection_count e group_id w3 = Inr 3 \<and> is_group_blocked e group_id w3 = Inr True"
    using read_count[OF l3 m3] r3 by simp
  show ?thesis using init s1 s2 s3 c1 c2 c3 r1 r2 r3 by auto
qed

theorem three_strikes_block_witness:
  "load_json_file env_offline (rejected_store empty_world) = Inr []
   \<and> map_of ([] :: rejection_record document) ''-1001234567890'' = None
   \<and> write_result env_offline (writes empty_world) = WriteOk
   \<and> write_result env_offline (Suc (writes empty_world)) = WriteOk
   \<and> write_result env_offline (Suc (Suc (writes empty_world))) = WriteOk
   \<and> get_rejection_count env_offline ''-1001234567890'' empty_world = Inr 0
   \<and> is_group_blocked env_offline ''-1001234567890'' empty_world = Inr False
   \<and> (\<exists>w1 w2 w3.
        track_rejection (env_offline\<lparr>clock := 1\<rparr>) ''-1001234567890'' (Some ''Test Group'') (Some ''123456789'') (Some ''Test Admin'') empty_world = Inr (w1, False) \<and>
        get_rejection_count env_offline ''-1001234567890'' w1 = Inr 1 \<and>
        is_group_blocked env_offline ''-1001234567890'' w1 = Inr False \<and>
        track_rejection (env_offline\<lparr>clock := 2\<rparr>) ''-1001234567890'' None None None w1 = Inr (w2, False) \<and>
        get_rejection_count env_offline ''-1001234567890'' w2 = Inr 2 \<and>
        is_group_blocked env_offline ''-1001234567890'' w2 = Inr False \<and>
        track_rejection (env_offline\<lparr>clock := 3\<rparr>) ''-1001234567890'' None None None w2 = Inr (w3, True) \<and>
        get_rejection_count env_offline ''-1001234567890'' w3 = Inr 3 \<and>
        is_group_blocked env_offline ''-1001234567890'' w3 = Inr True)"
proof -
  have h1: "load_json_file env_offline (rejected_store empty_world) = Inr []"
    by (simp add: load_json_file_def env_offline_def empty_world_def no_resource_def truthy_def)
  have h2: "map_of ([] :: rejection_record document) ''-1001234567890'' = None"
    by simp
  have h3: "write_result env_offline (writes empty_world) = WriteOk"
    and h4: "write_result env_offline (Suc (writes empty_world)) = WriteOk"
    and h5: "write_result env_offline (Suc (Suc (writes empty_world))) = WriteOk"
    by (simp_all add: env_offline_def)
  show ?thesis
    using h1 h2 h3 h4 h5
      three_strikes_block [OF h1 h2 h3 h4 h5, where ?t1.0 = 1 and ?t2.0 = 2 and ?t3.0 = 3
        and ?gn1.0 = "Some ''Test Group''" and ?a1.0 = "Some ''123456789''" and ?an1.0 = "Some ''Test Admin''"
        and ?gn2.0 = None and ?a2.0 = None and ?an2.0 = None
        and ?gn3.0 = None and ?a3.0 = None and ?an3.0 = None]
    by simp
qed

text \<open>On a disk that refuses every write, the first strike on a fresh group returns
  false and the count read back afterwards is still 0, not 1.\<close>

theorem three_strikes_unsaved:
  "load_json_file env_readonly (rejected_store empty_world) = Inr []
   \<and> track_rejection env_readonly ''-1001234567890'' (Some ''Test Group'') (Some ''123456789'')
        (Some ''Test Admin'') empty_world = Inr (world_unsaved, False)
   \<and> get_rejection_count env_readonly ''-1001234567890'' world_unsaved = Inr 0"
  by (simp add: track_rejection_def get_rejection_count_def load_json_file_def save_json_file_def
      write_json_def env_readonly_def env_offline_def empty_world_def world_unsaved_def
      no_resource_def truthy_def Let_def strike_def new_rejection_record_def)

text \<open>
  C2. In every state of the \<open>rejected_groups\<close> document that \<open>track_rejection\<close> and
  \<open>reset_rejection_count\<close> can reach from the absent document, whatever the outcome of
  each write, every group's record has \<open>blocked\<close> exactly when \<open>rejection_count\<close> is at
  least 3.
\<close>

theorem blocked_iff_three_strikes:
  assumes "reachable w" "load_json_file e (rejected_store w) = Inr d" "map_of d group_id = Some r"
  shows "blocked r = (rejection_count r \<ge> 3)"
  using assms reachable_consistent load_consistent document_consistent_lookup record_consistent_def by blast

theorem blocked_iff_three_strikes_witness:
  "reachable (empty_world\<lparr>rejected_store := \<lparr>disk_file = Content [(''g'', strike env_offline None None None (new_rejection_record env_offline ''g'' None None None))], db_row = Missing\<rparr>, writes := Suc 0\<rparr>)
   \<and> load_json_file env_offline (rejected_store (empty_world\<lparr>rejected_store := \<lparr>disk_file = Content [(''g'', strike env_offline None None None (new_rejection_record env_offline ''g'' None None None))], db_row = Missing\<rparr>, writes := Suc 0\<rparr>))
       = Inr [(''g'', strike env_offline None None None (new_rejection_record env_offline ''g'' None None None))]
   \<and> map_of [(''g'', strike env_offline None None None (new_rejection_record env_offline ''g'' None None None))] ''g''
       = Some (strike env_offline None None None (new_rejection_record env_offline ''g'' None None None))
   \<and> blocked (strike env_offline None None None (new_rejection_record env_offline ''g'' None None None))
       = (rejection_count (strike env_offline None None None (new_rejection_record env_offline ''g'' None None None)) \<ge> 3)"
proof -
  let ?r = "strike env_offline None None None (new_rejection_record env_offline ''g'' None None None)"
  let ?w = "empty_world\<lparr>rejected_store := \<lparr>disk_file = Content [(''g'', ?r)], db_row = Missing\<rparr>, writes := Suc 0\<rparr>"
  have s: "reachable empty_world"
    by (rule reachable.start) (simp add: untouched_def empty_world_def no_resource_def)
  have t: "track_rejection env_offline ''g'' None None None empty_world = Inr (?w, blocked ?r)"
    by (simp add: track_rejection_def load_json_file_def save_json_file_def write_json_def
        env_offline_def empty_world_def no_resource_def truthy_def Let_def)
  have h1: "reachable ?w"
    using s t by (rule reachable.after_track)
  have h2: "load_json_file env_offline (rejected_store ?w) = Inr [(''g'', ?r)]"
    by (simp add: load_json_file_def read_json_def env_offline_def truthy_def)
  have h3: "map_of [(''g'', ?r)] ''g'' = Some ?r"
    by simp
  show ?thesis
    using h1 h2 h3 blocked_iff_three_strikes [OF h1 h2 h3] by blast
qed

section \<open>Balance verification: proofs\<close>

lemma verify_total: "\<exists>b evs. verify_user_balance e cfg a = (Inr b, evs)"
  by (auto simp: verify_user_balance_def split: prod.splits sum.splits)

lemma try_fallback:
  assumes "token cfg = Some tok" "min_balance cfg = Some minb"
      and "primary_failed e a tok (config_chain cfg)"
  shows "verify_user_balance e cfg a =
           (fst (fallback_verdict e a tok (config_chain cfg) minb),
            primary_events e a tok (config_chain cfg) @ snd (fallback_verdict e a tok (config_chain cfg) minb))"
  using assms
  by (auto simp: verify_user_balance_def verify_user_balance_try_def primary_failed_def primary_events_def
      fallback_verdict_def get_token_balance_moralis_def Let_def split: prod.splits sum.splits)



lemma pow2_pos: "0 < pow2 k"
  by (simp add: pow2_def)

lemma round_half_even_nonneg: "0 \<le> x \<Longrightarrow> 0 \<le> round_half_even x"
  by (simp add: round_half_even_def Let_def)

lemma to_double_zero: "to_double 0 = Inr 0"
  by (simp add: to_double_def)

lemma to_double_nonpos:
  assumes "q \<le> 0" "to_double q = Inr v"
  shows "v \<le> 0"
proof (cases "q = 0")
  case True
  then show ?thesis using assms by (simp add: to_double_def)
next
  case False
  then have neg: "sgn q = - 1" using assms(1) by (simp add: sgn_if)
  obtain a b where ab: "quotient_of \<bar>q\<bar> = (a, b)" by (cases "quotient_of \<bar>q\<bar>")
  define ulp where "ulp = pow2 (max (ilog2 a b) (- 1022) - 52)"
  have pos: "0 < ulp" by (simp add: ulp_def pow2_pos)
  have "0 \<le> \<bar>q\<bar> / ulp" using pos by simp
  then have "0 \<le> round_half_even (\<bar>q\<bar> / ulp)" by (rule round_half_even_nonneg)
  then have "0 \<le> of_int (round_half_even (\<bar>q\<bar> / ulp)) * ulp" using pos by simp
  moreover have "v = - (of_int (round_half_even (\<bar>q\<bar> / ulp)) * ulp)"
    using assms(2) False ab neg by (simp add: to_double_def Let_def ulp_def split: if_splits)
  ultimately show ?thesis by simp
qed

lemma scale_failed:
  assumes "case raw of FloatZero \<Rightarrow> True | RawInt n \<Rightarrow> n \<le> 0" "scale_balance raw d = Inr v"
  shows "v \<le> 0"
proof (cases raw)
  case (RawInt n)
  then have "n \<le> 0" using assms(1) by simp
  then have "(of_int n :: rat) / of_int (10 ^ d) \<le> 0"
    by (simp add: divide_nonpos_pos)
  then show ?thesis using assms(2) RawInt to_double_nonpos
    by (auto simp: scale_balance_def py_truediv_def)
next
  case FloatZero
  then show ?thesis using assms(2) by (auto simp: scale_balance_def split: sum.splits)
qed

lemma fallback_failed:
  assumes "secondary_failed e a tok" "0 < minb"
  shows "fst (fallback_verdict e a tok chain minb) = Inr False"
proof -
  obtain raw evs1 where r: "get_token_balance_etherscan e a tok = (raw, evs1)" by (cases "get_token_balance_etherscan e a tok")
  obtain d evs2 where d: "get_token_decimals e tok chain = (d, evs2)" by (cases "get_token_decimals e tok chain")
  have f: "case raw of FloatZero \<Rightarrow> True | RawInt n \<Rightarrow> n \<le> 0"
    using assms(1) r by (simp add: secondary_failed_def)
  show ?thesis
  proof (cases "scale_balance raw d")
    case (Inl ex)
    then show ?thesis using r d by (simp add: fallback_verdict_def etherscan_fallback_def)
  next
    case (Inr v)
    then have "v \<le> 0" using f scale_failed by blast
    then show ?thesis using r d Inr assms(2) by (simp add: fallback_verdict_def etherscan_fallback_def)
  qed
qed

lemma fallback_events:
  "snd (fallback_verdict e a tok chain minb) =
     snd (get_token_balance_etherscan e a tok) @ [MoralisMetadata (chain_map_get chain) tok]"
  by (auto simp: fallback_verdict_def etherscan_fallback_def get_token_decimals_def Let_def
      split: prod.splits sum.splits)

lemma etherscan_events:
  "ETHERSCAN_API_KEY e = Some key \<Longrightarrow> key \<noteq> [] \<Longrightarrow>
   snd (get_token_balance_etherscan e a tok) = [EtherscanGet (etherscan_url tok a key)]"
  by (auto simp: get_token_balance_etherscan_def Let_def split: sum.splits)

lemma decimals_value:
  "fst (get_token_decimals e tok chain) =
     (case get_token_metadata e (chain_map_get chain) tok of Inr (Val n) \<Rightarrow> n | _ \<Rightarrow> 18)"
  by (auto simp: get_token_decimals_def int_field_def Let_def split: sum.splits field.splits)

lemma fallback_raw:
  assumes "fst (get_token_balance_etherscan e a tok) = RawInt raw"
  shows "fst (fallback_verdict e a tok chain minb) =
           (case py_truediv raw (10 ^ fst (get_token_decimals e tok chain)) of
              Inl ex \<Rightarrow> Inr False
            | Inr q \<Rightarrow> Inr (minb \<le> q))"
  using assms
  by (auto simp: fallback_verdict_def etherscan_fallback_def scale_balance_def split: prod.splits sum.splits)



section \<open>Balance verification: the claims\<close>

text \<open>
  C4, as amended. For every group configuration and every member address,
  \<open>verify_user_balance\<close> raises nothing and returns a boolean. Whenever both providers
  fail (the primary is unusable or returns no positive balance, the secondary returns
  \<open>0.0\<close> or a raw balance that is not positive) and the threshold \<open>min_balance\<close> is
  positive, it returns \<open>False\<close>.
\<close>

theorem verify_user_balance_fail_closed:
  "(\<exists>b. fst (verify_user_balance e cfg a) = Inr b)
   \<and> (token cfg = Some tok \<and> min_balance cfg = Some minb \<and> 0 < minb
        \<and> primary_failed e a tok (config_chain cfg) \<and> secondary_failed e a tok
      \<longrightarrow> fst (verify_user_balance e cfg a) = Inr False)"
proof -
  have "\<exists>b. fst (verify_user_balance e cfg a) = Inr b"
    using verify_total[of e cfg a] by auto
  moreover have "fst (verify_user_balance e cfg a) = Inr False"
    if "token cfg = Some tok" "min_balance cfg = Some minb" "0 < minb"
       "primary_failed e a tok (config_chain cfg)" "secondary_failed e a tok"
    using that try_fallback[of cfg tok minb e a] fallback_failed[of e a tok minb] by simp
  ultimately show ?thesis by blast
qed

theorem verify_user_balance_fail_closed_witness:
  "(\<exists>b. fst (verify_user_balance env_offline cfg_one ''0xA'') = Inr b)
   \<and> token cfg_one = Some ''0xT'' \<and> min_balance cfg_one = Some 1 \<and> (0::rat) < 1
   \<and> primary_failed env_offline ''0xA'' ''0xT'' (config_chain cfg_one)
   \<and> secondary_failed env_offline ''0xA'' ''0xT''
   \<and> fst (verify_user_balance env_offline cfg_one ''0xA'') = Inr False"
proof -
  have h: "token cfg_one = Some ''0xT'' \<and> min_balance cfg_one = Some 1 \<and> (0::rat) < 1
      \<and> primary_failed env_offline ''0xA'' ''0xT'' (config_chain cfg_one)
      \<and> secondary_failed env_offline ''0xA'' ''0xT''"
    by code_simp
  show ?thesis
    using h verify_user_balance_fail_closed [of env_offline cfg_one "''0xA''" "''0xT''" 1]
    by blast
qed

text \<open>The claim without the restriction to a positive threshold fails here: with
  \<open>min_balance = 0\<close>, no provider key at all and the decimals request failing, both
  providers have failed and the check answers \<open>True\<close>.\<close>

theorem verify_user_balance_zero_threshold:
  "token cfg_zero = Some ''0xT'' \<and> min_balance cfg_zero = Some 0 \<and> (0::rat) \<le> 0
   \<and> primary_failed env_offline ''0xA'' ''0xT'' (config_chain cfg_zero)
   \<and> secondary_failed env_offline ''0xA'' ''0xT''
   \<and> fst (verify_user_balance env_offline cfg_zero ''0xA'') = Inr True"
  by code_simp



text \<open>
  C7. On the fallback path, when Etherscan returns the raw integer \<open>raw\<close>, the check
  divides it by \<open>10 ^ decimals\<close> (Python's division of two \<open>int\<close>s, rounded once to a
  \<open>float\<close>), where \<open>decimals\<close> is what the token's metadata say and 18 when the request
  fails or carries no usable value, and answers whether the quotient is at least
  \<open>min_balance\<close>, equality included; a division that overflows a \<open>float\<close> answers
  \<open>False\<close>. The instance: raw 150 with 2 decimals against 1.0 is 1.5 and compliant.
\<close>

theorem fallback_scales_by_decimals:
  assumes "token cfg = Some tok" "min_balance cfg = Some minb"
      and "primary_failed e a tok (config_chain cfg)"
      and "fst (get_token_balance_etherscan e a tok) = RawInt raw"
      and "d = (case get_token_metadata e (chain_map_get (config_chain cfg)) tok of Inr (Val n) \<Rightarrow> n | _ \<Rightarrow> 18)"
  shows "fst (get_token_decimals e tok (config_chain cfg)) = d
       \<and> fst (verify_user_balance e cfg a) =
           (case py_truediv raw (10 ^ d) of
              Inl ex \<Rightarrow> Inr False
            | Inr q \<Rightarrow> Inr (minb \<le> q))"
  using assms try_fallback[of cfg tok minb e a] fallback_raw[of e a tok raw "config_chain cfg" minb]
    decimals_value[of e tok "config_chain cfg"]
  by simp

theorem fallback_scales_by_decimals_witness:
  "token cfg_one = Some ''0xT'' \<and> min_balance cfg_one = Some 1
   \<and> primary_failed env_etherscan ''0xA'' ''0xT'' (config_chain cfg_one)
   \<and> fst (get_token_balance_etherscan env_etherscan ''0xA'' ''0xT'') = RawInt 150
   \<and> (2::nat) = (case get_token_metadata env_etherscan (chain_map_get (config_chain cfg_one)) ''0xT'' of Inr (Val n) \<Rightarrow> n | _ \<Rightarrow> 18)
   \<and> py_truediv 150 (10 ^ 2) = Inr (3 / 2)
   \<and> fst (verify_user_balance env_etherscan cfg_one ''0xA'') = Inr True"
proof -
  have h1: "token cfg_one = Some ''0xT''" and h2: "min_balance cfg_one = Some 1"
    by (simp_all add: cfg_one_def)
  have h3: "primary_failed env_etherscan ''0xA'' ''0xT'' (config_chain cfg_one)"
    by code_simp
  have h4: "fst (get_token_balance_etherscan env_etherscan ''0xA'' ''0xT'') = RawInt 150"
    by code_simp
  have h5: "(2::nat) = (case get_token_metadata env_etherscan (chain_map_get (config_chain cfg_one)) ''0xT'' of Inr (Val n) \<Rightarrow> n | _ \<Rightarrow> 18)"
    by code_simp
  have q: "py_truediv 150 (10 ^ 2) = Inr (3 / 2)"
    by code_simp
  show ?thesis
    using h1 h2 h3 h4 h5 q fallback_scales_by_decimals [OF h1 h2 h3 h4 h5]
    by simp
qed

text \<open>
  C10. On the fallback path with an Etherscan key, the requests of one check are the
  primary's (if made), then one Etherscan request whose URL carries \<open>chainid=1\<close> and
  depends only on the token, the wallet and the key, not on the group's \<open>chain_id\<close>,
  then the metadata request for the decimals, made for the group's configured chain
  (mapped through \<open>CHAIN_MAP\<close>).
\<close>

theorem fallback_queries_mainnet:
  assumes "token cfg = Some tok" "min_balance cfg = Some minb"
      and "primary_failed e a tok (config_chain cfg)"
      and "ETHERSCAN_API_KEY e = Some key" "key \<noteq> []"
  shows "snd (verify_user_balance e cfg a) =
           primary_events e a tok (config_chain cfg)
           @ [EtherscanGet (''https://api.etherscan.io/v2/api?chainid=1&module=account&action=tokenbalance&contractaddress=''
                            @ tok @ ''&address='' @ a @ ''&tag=latest&apikey='' @ key),
              MoralisMetadata (chain_map_get (config_chain cfg)) tok]"
  using assms try_fallback[of cfg tok minb e a] fallback_events[of e a tok "config_chain cfg" minb]
    etherscan_events[of e key a tok]
  by (simp add: etherscan_url_def)

theorem fallback_queries_mainnet_witness:
  "token cfg_one = Some ''0xT'' \<and> min_balance cfg_one = Some 1
   \<and> primary_failed env_etherscan ''0xA'' ''0xT'' (config_chain cfg_one)
   \<and> ETHERSCAN_API_KEY env_etherscan = Some ''KEY'' \<and> ''KEY'' \<noteq> []
   \<and> chain_id cfg_one = Some ''bsc''
   \<and> snd (verify_user_balance env_etherscan cfg_one ''0xA'') =
       [EtherscanGet ''https://api.etherscan.io/v2/api?chainid=1&module=account&action=tokenbalance&contractaddress=0xT&address=0xA&tag=latest&apikey=KEY'',
        MoralisMetadata ''bsc'' ''0xT'']"
proof -
  have h1: "token cfg_one = Some ''0xT''" and h2: "min_balance cfg_one = Some 1"
    by (simp_all add: cfg_one_def)
  have h3: "primary_failed env_etherscan ''0xA'' ''0xT'' (config_chain cfg_one)"
    by code_simp
  have h4: "ETHERSCAN_API_KEY env_etherscan = Some ''KEY''" and h5: "''KEY'' \<noteq> []"
    by (simp_all add: env_etherscan_def)
  have c: "chain_id cfg_one = Some ''bsc''" "chain_map_get (config_chain cfg_one) = ''bsc''"
    "primary_events env_etherscan ''0xA'' ''0xT'' (config_chain cfg_one) = []"
    by code_simp+
  show ?thesis
    using h1 h2 h3 h4 h5 c fallback_queries_mainnet [OF h1 h2 h3 h4 h5]
    by simp
qed

section \<open>The reverification pass: proofs\<close>

lemma digit_val_range: "digit_val c = Some d \<Longrightarrow> 0 \<le> d \<and> d \<le> 9"
  by (auto simp: digit_val_def Let_def split: if_splits)

lemma parse_digits_bound:
  "parse_digits acc b cs = Some n \<Longrightarrow> 0 \<le> acc \<Longrightarrow> acc < 10 ^ c
   \<Longrightarrow> 0 \<le> n \<and> n < 10 ^ (c + length (filter is_digit cs))"
proof (induction acc b cs arbitrary: c rule: parse_digits.induct)
  case (1 acc after_digit)
  then show ?case by (simp split: if_splits)
next
  case (2 acc after_digit ch cs)
  show ?case
  proof (cases "ch = CHR ''_''")
    case True
    then have nd: "\<not> is_digit ch" by (simp add: is_digit_def digit_val_def)
    from True "2.prems"(1) have p: "parse_digits acc False cs = Some n" "after_digit \<and> cs \<noteq> []"
      by (auto split: if_splits)
    show ?thesis
      using "2.IH"(1)[OF True p(2) p(1) "2.prems"(2,3)] nd by simp
  next
    case False
    then obtain d where d: "digit_val ch = Some d" and p: "parse_digits (10 * acc + d) True cs = Some n"
      using "2.prems"(1) by (auto split: option.splits)
    have r: "0 \<le> d" "d \<le> 9" using digit_val_range[OF d] by simp_all
    have a: "0 \<le> 10 * acc + d" using "2.prems"(2) r by simp
    have "10 * acc + d < 10 * 10 ^ c" using "2.prems"(3) r by simp
    then have b: "10 * acc + d < 10 ^ Suc c" by simp
    have isd: "is_digit ch" using d by (simp add: is_digit_def)
    show ?thesis
      using "2.IH"(2)[OF False d p a b] isd by simp
  qed
qed

lemma int_digits_length:
  "0 \<le> m \<Longrightarrow> m < 10 ^ c \<Longrightarrow> 0 < c \<Longrightarrow> length (int_digits m) \<le> c"
proof (induction m arbitrary: c rule: int_digits.induct)
  case (1 n)
  show ?case
  proof (cases "n < 10")
    case True
    then show ?thesis using "1.prems"(3) by (subst int_digits.simps) simp
  next
    case False
    obtain c' where c': "c = Suc c'" using "1.prems"(3) by (cases c) auto
    have pos: "0 < c'"
    proof (cases c')
      case 0
      then show ?thesis using False "1.prems"(2) c' by simp
    next
      case (Suc x)
      then show ?thesis by simp
    qed
    have "n < 10 * 10 ^ c'" using "1.prems"(2) c' by simp
    then have lt: "n div 10 < 10 ^ c'" by (simp add: div_less_iff_less_mult mult.commute)
    have ge: "0 \<le> n div 10" using "1.prems"(1) by simp
    have "length (int_digits (n div 10)) \<le> c'"
      using "1.IH"[OF False ge lt pos] .
    then show ?thesis using False c' by (subst int_digits.simps) simp
  qed
qed

lemma py_int_magnitude:
  assumes "py_int k = Inr n"
  shows "\<exists>c. 0 < c \<and> c \<le> 4300 \<and> \<bar>n\<bar> < 10 ^ c"
proof -
  define nb where "nb = (case strip k of [] \<Rightarrow> (False, [])
             | c # cs \<Rightarrow> if c = CHR ''-'' then (True, cs)
                 else if c = CHR ''+'' then (False, cs) else (False, strip k))"
  obtain neg body where nb: "nb = (neg, body)" by (cases nb)
  have l: "length (filter is_digit body) \<le> 4300"
    using assms nb by (auto simp: py_int_def Let_def nb_def[symmetric] split: if_splits)
  obtain m where p: "parse_digits 0 False body = Some m" and n: "n = (if neg then - m else m)"
    using assms nb by (auto simp: py_int_def Let_def nb_def[symmetric] split: if_splits option.splits)
  have b: "0 \<le> m \<and> m < 10 ^ (0 + length (filter is_digit body))"
    using parse_digits_bound[OF p, of 0] by simp
  let ?c = "max 1 (length (filter is_digit body))"
  have le: "(10::int) ^ length (filter is_digit body) \<le> 10 ^ ?c"
    by (rule power_increasing) simp_all
  have "m < 10 ^ length (filter is_digit body)" using b by simp
  then have "m < 10 ^ ?c" using le by (rule order.strict_trans2)
  moreover have "\<bar>n\<bar> = m" using b n by simp
  ultimately have "\<bar>n\<bar> < 10 ^ ?c" by simp
  moreover have "0 < ?c" "?c \<le> 4300" using l by simp_all
  ultimately show ?thesis by blast
qed

lemma py_int_is_owner:
  assumes "py_int k = Inr n"
  shows "\<exists>b. is_owner e n = Inr b"
proof -
  obtain c where c: "0 < c" "c \<le> 4300" "\<bar>n\<bar> < 10 ^ c"
    using py_int_magnitude[OF assms] by blast
  have "length (int_digits \<bar>n\<bar>) \<le> c"
    using int_digits_length[of "\<bar>n\<bar>" c] c by simp
  then have "length (int_digits \<bar>n\<bar>) \<le> 4300" using c(2) by simp
  then show ?thesis by (simp add: is_owner_def py_str_def Let_def)
qed

lemma verify_provider_events:
  "\<forall>ev \<in> set (snd (verify_user_balance e cfg a)). is_provider_event ev"
  by (auto simp: verify_user_balance_def verify_user_balance_try_def etherscan_fallback_def
      get_token_balance_etherscan_def get_token_decimals_def get_token_balance_moralis_def
      is_provider_event_def Let_def
      split: prod.splits sum.splits option.splits if_splits)

lemma member_record_update:
  "map_of ud g = Some members \<Longrightarrow>
   member_record (AList.update g (AList.update k v members) ud) g' k' =
     (if g' = g \<and> k' = k then Some v else member_record ud g' k')"
  by (auto simp: member_record_def update_conv')


lemma save_results: "\<exists>r. save_json_file e out st d = Inr (r, out = WriteOk)"
  by (auto simp: save_json_file_def db_save_def write_json_def split: write_outcome.splits)

lemma verify_member_effect:
  assumes "verify_member e g cfg k info st = (ex, st')"
  shows "quiet_step e g k st st' \<or> removal_of e g k st st'"
proof (cases "py_int k")
  case (Inl x)
  then show ?thesis using assms by (auto simp: verify_member_def quiet_step_def)
next
  case (Inr uid)
  show ?thesis
  proof (cases "is_owner e uid = Inr False \<and> verified info = Some True \<and> address info \<noteq> None")
    case False
    then show ?thesis using assms Inr
      by (auto simp: verify_member_def quiet_step_def split: if_splits option.splits sum.splits)
  next
    case True
    then obtain a where a: "address info = Some a" by auto
    obtain b pevs where v: "verify_user_balance e cfg a = (Inr b, pevs)"
      by (metis verify_total)
    have pe: "\<forall>ev \<in> set pevs. is_provider_event ev"
      using verify_provider_events[of e cfg a] v by simp
    show ?thesis
    proof (cases b)
      case True
      then show ?thesis using assms Inr \<open>is_owner e uid = Inr False \<and> _\<close> a v pe
        by (auto simp: verify_member_def quiet_step_def Let_def)
    next
      case False
      note nb = this
      let ?st1 = "st\<lparr>events := events st @ pevs\<rparr>"
      obtain rex st2 where r: "remove_member_try e g k uid ?st1 = (rex, st2)"
        by (cases "remove_member_try e g k uid ?st1")
      have st': "st' = (case rex of None \<Rightarrow> st2 | Some x \<Rightarrow> st2\<lparr>error_count := Suc (error_count st2)\<rparr>)"
        using assms Inr \<open>is_owner e uid = Inr False \<and> _\<close> a v nb r
        by (auto simp: verify_member_def Let_def split: option.splits)
      show ?thesis
      proof (cases "ban_chat_member e g uid \<and> unban_chat_member e g uid \<and> member_record (user_data st) g k \<noteq> None")
        case False
        then have "quiet_step e g k st st'"
          using r st' pe Inr \<open>is_owner e uid = Inr False \<and> _\<close>
          by (auto simp: remove_member_try_def quiet_step_def member_record_def Let_def
              split: if_splits option.splits)
        then show ?thesis ..
      next
        case True
        then obtain members info' where m: "map_of (user_data st) g = Some members" "map_of members k = Some info'"
          by (auto simp: member_record_def split: option.splits)
        let ?ud = "AList.update g (AList.update k (info'\<lparr>verified := Some False\<rparr>) members) (user_data st)"
        obtain rr where sv: "save_json_file e (write_result e (writes (world_now st))) (user_data_store (world_now st)) ?ud
              = Inr (rr, write_result e (writes (world_now st)) = WriteOk)"
          using save_results by blast
        have "removal_of e g k st st'"
          unfolding removal_of_def
          using r st' pe Inr \<open>is_owner e uid = Inr False \<and> _\<close> True m sv
          by (auto simp: remove_member_try_def Let_def)
        then show ?thesis ..
      qed
    qed
  qed
qed

lemma members_loop_invariant:
  assumes "members_loop e g cfg ms st = (ex, st')" "P st"
      and "\<And>k info s s'. (k, info) \<in> set ms \<Longrightarrow> P s
             \<Longrightarrow> quiet_step e g k s s' \<or> removal_of e g k s s' \<Longrightarrow> P s'"
  shows "P st'"
  using assms
proof (induction ms arbitrary: st)
  case Nil
  then show ?case by simp
next
  case (Cons m ms)
  obtain k info where m: "m = (k, info)" by (cases m)
  obtain x s1 where v: "verify_member e g cfg k info st = (x, s1)"
    by (cases "verify_member e g cfg k info st")
  have p1: "P s1"
    using Cons.prems(2) Cons.prems(3)[of k info st s1] verify_member_effect[OF v] m by simp
  show ?case
  proof (cases x)
    case None
    then have l: "members_loop e g cfg ms s1 = (ex, st')"
      using Cons.prems(1) m v by simp
    have stp: "\<And>k info s s'. (k, info) \<in> set ms \<Longrightarrow> P s
             \<Longrightarrow> quiet_step e g k s s' \<or> removal_of e g k s s' \<Longrightarrow> P s'"
      using Cons.prems(3) by (meson list.set_intros(2))
    show ?thesis
      by (rule Cons.IH[OF l p1 stp])
  next
    case (Some a)
    then have "st' = s1" using Cons.prems(1) m v by simp
    then show ?thesis using p1 by simp
  qed
qed

lemma members_loop_append:
  "members_loop e g cfg (xs @ ys) st =
     (case members_loop e g cfg xs st of
        (Some ex, st') \<Rightarrow> (Some ex, st')
      | (None, st') \<Rightarrow> members_loop e g cfg ys st')"
  by (induction xs arbitrary: st) (auto split: prod.splits option.splits)

lemma verify_member_wellformed:
  assumes "member_wellformed (k, info)"
  shows "fst (verify_member e g cfg k info st) = None"
proof -
  obtain uid where u: "py_int k = Inr uid"
    using assms by (auto simp: member_wellformed_def split: sum.splits)
  obtain own where o: "is_owner e uid = Inr own"
    using py_int_is_owner[OF u] by blast
  show ?thesis
  proof (cases "\<not> own \<and> verified info = Some True")
    case False
    then show ?thesis using u o by (auto simp: verify_member_def)
  next
    case True
    then obtain a where a: "address info = Some a"
      using assms by (auto simp: member_wellformed_def)
    obtain b pevs where v: "verify_user_balance e cfg a = (Inr b, pevs)"
      by (metis verify_total)
    show ?thesis using u o True a v
      by (auto simp: verify_member_def Let_def split: prod.splits option.splits)
  qed
qed

lemma members_loop_wellformed:
  "\<forall>m \<in> set ms. member_wellformed m \<Longrightarrow> fst (members_loop e g cfg ms st) = None"
proof (induction ms arbitrary: st)
  case Nil
  then show ?case by simp
next
  case (Cons m ms)
  obtain k info where m: "m = (k, info)" by (cases m)
  obtain x s1 where v: "verify_member e g cfg k info st = (x, s1)"
    by (cases "verify_member e g cfg k info st")
  have "x = None" using verify_member_wellformed[of k info e g cfg st] Cons.prems m v by simp
  then show ?case using Cons m v by simp
qed


lemma provider_not_action [simp]:
  "\<not> is_provider_event (BanChatMember g u)" "\<not> is_provider_event (UnbanChatMember g u)"
  "\<not> is_provider_event (SaveUserData d)"
  by (simp_all add: is_provider_event_def)

lemma owner_untouched_step:
  assumes "owner_untouched e ud0 s" "quiet_step e g k s s' \<or> removal_of e g k s s'"
  shows "owner_untouched e ud0 s'"
  using assms(2)
proof
  assume "quiet_step e g k s s'"
  then obtain evs where q: "user_data s' = user_data s" "events s' = events s @ evs"
    and ev: "\<forall>ev \<in> set evs. is_provider_event ev
              \<or> (\<exists>uid. py_int k = Inr uid \<and> is_owner e uid = Inr False
                    \<and> (ev = BanChatMember g uid \<or> ev = UnbanChatMember g uid))"
    unfolding quiet_step_def by blast
  have a: "BanChatMember g' owner \<notin> set evs \<and> UnbanChatMember g' owner \<notin> set evs" if "is_owner e owner = Inr True" for g' owner
    using ev that by fastforce
  have b: "SaveUserData d \<notin> set evs" for d
    using ev by fastforce
  show ?thesis
    using assms(1) q a b unfolding owner_untouched_def by auto
next
  assume "removal_of e g k s s'"
  then obtain uid members info pevs where
    u: "py_int k = Inr uid" "is_owner e uid = Inr False"
    and m: "map_of (user_data s) g = Some members"
    and pe: "\<forall>ev \<in> set pevs. is_provider_event ev"
    and ud: "user_data s' = AList.update g (AList.update k (info\<lparr>verified := Some False\<rparr>) members) (user_data s)"
    and evs: "events s' = events s @ pevs @ [BanChatMember g uid, UnbanChatMember g uid, SaveUserData (user_data s')]"
    unfolding removal_of_def by auto
  have a: "BanChatMember g' owner \<notin> set pevs \<and> UnbanChatMember g' owner \<notin> set pevs \<and> SaveUserData d \<notin> set pevs" for g' owner d
    using pe by fastforce
  have r: "member_record (user_data s') g' k' = member_record (user_data s) g' k'" if "py_int k' = Inr owner" "is_owner e owner = Inr True" for g' k' owner
    using that u ud member_record_update[OF m] by auto
  show ?thesis
    unfolding owner_untouched_def
  proof (intro allI impI conjI)
    fix owner g'
    assume o: "is_owner e owner = Inr True"
    then have "owner \<noteq> uid" using u by auto
    then show "BanChatMember g' owner \<notin> set (events s')" "UnbanChatMember g' owner \<notin> set (events s')"
      using assms(1) o evs a unfolding owner_untouched_def by auto
  next
    fix owner g' k'
    assume o: "is_owner e owner = Inr True" and k': "py_int k' = Inr owner"
    show "member_record (user_data s') g' k' = member_record ud0 g' k'"
      using r[OF k' o] assms(1) o k' unfolding owner_untouched_def by simp
  next
    fix owner g' k' d
    assume o: "is_owner e owner = Inr True" and k': "py_int k' = Inr owner" and d: "SaveUserData d \<in> set (events s')"
    have "SaveUserData d \<in> set (events s) \<or> d = user_data s'"
      using d evs a by auto
    then show "member_record d g' k' = member_record ud0 g' k'"
      using r[OF k' o] assms(1) o k' unfolding owner_untouched_def by auto
  qed
qed

lemma verify_all_members_owner:
  assumes "load_json_file e (user_data_store w) = Inr ud" "verify_all_members e g cfg w = (ex, st)"
  shows "owner_untouched e ud st"
proof -
  let ?st0 = "\<lparr>user_data = ud, world_now = w, events = [], verified_count = 0, removed_count = 0, error_count = 0\<rparr>"
  let ?ms = "case map_of ud g of None \<Rightarrow> [] | Some m \<Rightarrow> m"
  have l: "members_loop e g cfg ?ms ?st0 = (ex, st)"
    using assms by (simp add: verify_all_members_def Let_def)
  have p0: "owner_untouched e ud ?st0"
    by (simp add: owner_untouched_def)
  show ?thesis
    by (rule members_loop_invariant[OF l, where P = "owner_untouched e ud", OF p0]) (rule owner_untouched_step)
qed

lemma load_after_save_cases:
  "save_json_file e out r d = Inr (r', ok) \<Longrightarrow>
   load_json_file e r' = Inr d \<or> load_json_file e r' = load_json_file e r \<or> load_json_file e r' = Inr []"
  by (auto simp: save_json_file_def db_save_def write_json_def load_json_file_def db_load_def read_json_def
      split: if_splits write_outcome.splits stored.splits)

lemma store_tracks_step:
  assumes "store_tracks e d s" "quiet_step e g k s s' \<or> removal_of e g k s s'"
  shows "store_tracks e d s'"
  using assms(2)
proof
  assume "quiet_step e g k s s'"
  then show ?thesis using assms(1) unfolding quiet_step_def store_tracks_def by auto
next
  assume "removal_of e g k s s'"
  then obtain r ok ud' evs where
    sv: "save_json_file e (write_result e (writes (world_now s))) (user_data_store (world_now s)) ud' = Inr (r, ok)"
    and w: "user_data_store (world_now s') = r"
    and ev: "events s' = events s @ evs @ [SaveUserData ud']"
    unfolding removal_of_def by fastforce
  show ?thesis
    using load_after_save_cases[OF sv] assms(1) w ev unfolding store_tracks_def by auto
qed

lemma verify_all_members_tracks:
  assumes "load_json_file e (user_data_store w) = Inr ud" "verify_all_members e g cfg w = (ex, st)"
  shows "store_tracks e ud st"
proof -
  let ?st0 = "\<lparr>user_data = ud, world_now = w, events = [], verified_count = 0, removed_count = 0, error_count = 0\<rparr>"
  let ?ms = "case map_of ud g of None \<Rightarrow> [] | Some m \<Rightarrow> m"
  have l: "members_loop e g cfg ?ms ?st0 = (ex, st)"
    using assms by (simp add: verify_all_members_def Let_def)
  have p0: "store_tracks e ud ?st0"
    using assms(1) by (simp add: store_tracks_def)
  show ?thesis
    by (rule members_loop_invariant[OF l, where P = "store_tracks e ud", OF p0]) (rule store_tracks_step)
qed

lemma verify_all_members_empty:
  assumes "load_json_file e (user_data_store w) = Inr []" "verify_all_members e g cfg w = (ex, st)"
  shows "events st = [] \<and> world_now st = w"
  using assms by (auto simp: verify_all_members_def Let_def)

lemma owner_same_trans: "owner_same e ud0 d \<Longrightarrow> owner_same e d d' \<Longrightarrow> owner_same e ud0 d'"
  unfolding owner_same_def by metis

lemma owner_same_refl: "owner_same e d d"
  by (simp add: owner_same_def)

lemma untouched_respects:
  "owner_untouched e d st \<Longrightarrow> events_respect_owner e d (events st) \<and> owner_same e d (user_data st)"
  unfolding owner_untouched_def events_respect_owner_def owner_same_def by blast

lemma respect_trans:
  "owner_same e ud0 d \<Longrightarrow> events_respect_owner e d evs \<Longrightarrow> events_respect_owner e ud0 evs"
  unfolding events_respect_owner_def using owner_same_trans by blast

lemma respect_append:
  "events_respect_owner e ud0 xs \<Longrightarrow> events_respect_owner e ud0 ys \<Longrightarrow> events_respect_owner e ud0 (xs @ ys)"
  unfolding events_respect_owner_def by auto

lemma verify_all_members_respects:
  assumes "store_agrees e ud0 w" "verify_all_members e g cfg w = (ex, st)"
  shows "events_respect_owner e ud0 (events st) \<and> store_agrees e ud0 (world_now st)"
proof -
  obtain d where d: "load_json_file e (user_data_store w) = Inr d"
    using load_total by blast
  show ?thesis
  proof (cases "d = []")
    case True
    then have "events st = []" "world_now st = w"
      using verify_all_members_empty[of e w g cfg ex st] d assms(2) by simp_all
    then show ?thesis using assms(1) by (simp add: events_respect_owner_def)
  next
    case False
    then have s0: "owner_same e ud0 d" using assms(1) d by (auto simp: store_agrees_def)
    have u: "owner_untouched e d st" using d assms(2) by (rule verify_all_members_owner)
    have t: "store_tracks e d st" using d assms(2) by (rule verify_all_members_tracks)
    have r: "events_respect_owner e ud0 (events st)"
      using untouched_respects[OF u] respect_trans[OF s0] by blast
    have "store_agrees e ud0 (world_now st)"
      unfolding store_agrees_def
    proof (intro allI impI)
      fix dl assume "load_json_file e (user_data_store (world_now st)) = Inr dl"
      then have "dl = [] \<or> dl = d \<or> SaveUserData dl \<in> set (events st)"
        using t by (simp add: store_tracks_def)
      then show "dl = [] \<or> owner_same e ud0 dl"
        using s0 r by (auto simp: events_respect_owner_def)
    qed
    then show ?thesis using r by simp
  qed
qed

lemma groups_loop_respects:
  assumes "groups_loop e cs w evs = Inr (w', evs')" "store_agrees e ud0 w" "events_respect_owner e ud0 evs"
  shows "events_respect_owner e ud0 evs' \<and> store_agrees e ud0 w'"
  using assms
proof (induction cs arbitrary: w evs)
  case Nil
  then show ?case by simp
next
  case (Cons c cs)
  obtain g gc where c: "c = (g, gc)" by (cases c)
  obtain fc where fc: "load_json_file e (config_store w) = Inr fc"
    using load_total by blast
  let ?cfg = "case map_of fc g of None \<Rightarrow> gc | Some c \<Rightarrow> c"
  obtain ex st where v: "verify_all_members e g ?cfg w = (ex, st)"
    by (cases "verify_all_members e g ?cfg w")
  have l: "groups_loop e cs (world_now st) (evs @ events st) = Inr (w', evs')"
    using Cons.prems(1) c fc v by (simp add: Let_def)
  have r: "events_respect_owner e ud0 (events st) \<and> store_agrees e ud0 (world_now st)"
    using Cons.prems(2) v by (rule verify_all_members_respects)
  have a: "events_respect_owner e ud0 (evs @ events st)"
    using Cons.prems(3) r respect_append by blast
  show ?case
    using Cons.IH[OF l] r a by blast
qed

lemma others_only_refl: "others_only g n k s s"
  by (simp add: others_only_def)

lemma others_only_step:
  assumes "others_only g n k s0 s" "quiet_step e g k' s s' \<or> removal_of e g k' s s'"
      and "py_int k' \<noteq> Inr n" "k' \<noteq> k"
  shows "others_only g n k s0 s'"
proof -
  obtain evs0 where e0: "events s = events s0 @ evs0"
    "BanChatMember g n \<notin> set evs0" "UnbanChatMember g n \<notin> set evs0"
    "\<forall>d. SaveUserData d \<in> set evs0 \<longrightarrow> member_record d g k = member_record (user_data s0) g k"
    "member_record (user_data s) g k = member_record (user_data s0) g k"
    using assms(1) unfolding others_only_def by blast
  from assms(2) show ?thesis
  proof
    assume "quiet_step e g k' s s'"
    then obtain evs where q: "user_data s' = user_data s" "events s' = events s @ evs"
      and ev: "\<forall>ev \<in> set evs. is_provider_event ev
              \<or> (\<exists>uid. py_int k' = Inr uid \<and> (ev = BanChatMember g uid \<or> ev = UnbanChatMember g uid))"
      unfolding quiet_step_def by blast
    have a: "BanChatMember g n \<notin> set evs" "UnbanChatMember g n \<notin> set evs"
      using ev assms(3) by fastforce+
    have b: "SaveUserData d \<notin> set evs" for d
      using ev by fastforce
    show ?thesis
      unfolding others_only_def
      using e0 q a b by (intro exI[of _ "evs0 @ evs"]) auto
  next
    assume "removal_of e g k' s s'"
    then obtain uid members info pevs where
      u: "py_int k' = Inr uid"
      and m: "map_of (user_data s) g = Some members"
      and pe: "\<forall>ev \<in> set pevs. is_provider_event ev"
      and ud: "user_data s' = AList.update g (AList.update k' (info\<lparr>verified := Some False\<rparr>) members) (user_data s)"
      and evs: "events s' = events s @ pevs @ [BanChatMember g uid, UnbanChatMember g uid, SaveUserData (user_data s')]"
      unfolding removal_of_def by auto
    have a: "BanChatMember g n \<notin> set pevs \<and> UnbanChatMember g n \<notin> set pevs \<and> SaveUserData d \<notin> set pevs" for d
      using pe by fastforce
    have r: "member_record (user_data s') g k = member_record (user_data s) g k"
      using ud member_record_update[OF m] assms(4) by auto
    have un: "uid \<noteq> n" using u assms(3) by auto
    show ?thesis
      unfolding others_only_def
      using e0 evs a r un
      by (intro exI[of _ "evs0 @ pevs @ [BanChatMember g uid, UnbanChatMember g uid, SaveUserData (user_data s')]"]) auto
  qed
qed

lemma members_loop_others:
  assumes "members_loop e g cfg ms st = (ex, st')"
      and "\<forall>m \<in> set ms. py_int (fst m) \<noteq> Inr n \<and> fst m \<noteq> k"
  shows "others_only g n k st st'"
proof (rule members_loop_invariant[OF assms(1), where P = "others_only g n k st"])
  show "others_only g n k st st" by (rule others_only_refl)
next
  fix k' info s s'
  assume "(k', info) \<in> set ms" "others_only g n k st s" "quiet_step e g k' s s' \<or> removal_of e g k' s s'"
  then show "others_only g n k st s'"
    using others_only_step[of g n k st s e k' s'] assms(2) by fastforce
qed

lemma store_synced_step:
  assumes "store_synced e s" "quiet_step e g k s s' \<or> removal_of e g k s s'" "\<forall>i. write_result e i = WriteOk"
  shows "store_synced e s'"
  using assms(2)
proof
  assume "quiet_step e g k s s'"
  then show ?thesis using assms(1) unfolding quiet_step_def store_synced_def by auto
next
  assume "removal_of e g k s s'"
  then obtain r ok where
    sv: "save_json_file e (write_result e (writes (world_now s))) (user_data_store (world_now s)) (user_data s') = Inr (r, ok)"
    and w: "user_data_store (world_now s') = r"
    unfolding removal_of_def by fastforce
  have "save_json_file e WriteOk (user_data_store (world_now s)) (user_data s') = Inr (r, ok)"
    using sv assms(3) by simp
  then show ?thesis
    using load_after_save w unfolding store_synced_def by blast
qed

lemma members_loop_synced:
  assumes "members_loop e g cfg ms st = (ex, st')" "store_synced e st" "\<forall>i. write_result e i = WriteOk"
  shows "store_synced e st'"
  by (rule members_loop_invariant[OF assms(1), where P = "store_synced e", OF assms(2)])
     (rule store_synced_step[OF _ _ assms(3)])


lemma verify_member_compliant:
  assumes "py_int k = Inr n" "is_owner e n = Inr False" "verified info = Some True" "address info = Some a"
      and "fst (verify_user_balance e cfg a) = Inr True"
  shows "verify_member e g cfg k info s =
           (None, s\<lparr>events := events s @ snd (verify_user_balance e cfg a),
                     verified_count := Suc (verified_count s)\<rparr>)"
  using assms by (cases "verify_user_balance e cfg a") (simp add: verify_member_def Let_def)

lemma verify_member_removed:
  assumes "py_int k = Inr n" "is_owner e n = Inr False" "verified info = Some True" "address info = Some a"
      and "fst (verify_user_balance e cfg a) = Inr False"
      and "ban_chat_member e g n" "unban_chat_member e g n"
      and "member_record (user_data s) g k = Some info'"
  shows "\<exists>s' pevs d. verify_member e g cfg k info s = (None, s')
           \<and> events s' = events s @ pevs @ [BanChatMember g n, UnbanChatMember g n, SaveUserData d]
           \<and> (\<forall>ev \<in> set pevs. is_provider_event ev)
           \<and> user_data s' = d
           \<and> member_record d g k = Some (info'\<lparr>verified := Some False\<rparr>)
           \<and> (write_result e (writes (world_now s)) = WriteOk \<longrightarrow> store_synced e s')"
proof -
  obtain pevs where v: "verify_user_balance e cfg a = (Inr False, pevs)"
    using assms(5) by (cases "verify_user_balance e cfg a") simp
  have pe: "\<forall>ev \<in> set pevs. is_provider_event ev"
    using verify_provider_events[of e cfg a] v by simp
  obtain members where m: "map_of (user_data s) g = Some members" "map_of members k = Some info'"
    using assms(8) by (auto simp: member_record_def split: option.splits)
  let ?d = "AList.update g (AList.update k (info'\<lparr>verified := Some False\<rparr>) members) (user_data s)"
  obtain r where sv: "save_json_file e (write_result e (writes (world_now s))) (user_data_store (world_now s)) ?d
        = Inr (r, write_result e (writes (world_now s)) = WriteOk)"
    using save_results by blast
  let ?s' = "s\<lparr>events := events s @ pevs @ [BanChatMember g n, UnbanChatMember g n, SaveUserData ?d],
               user_data := ?d,
               world_now := (world_now s)\<lparr>user_data_store := r, writes := Suc (writes (world_now s))\<rparr>,
               removed_count := Suc (removed_count s)\<rparr>"
  have vm: "verify_member e g cfg k info s = (None, ?s')"
    using assms(1-4,6,7) v m sv by (simp add: verify_member_def remove_member_try_def Let_def)
  have mr: "member_record ?d g k = Some (info'\<lparr>verified := Some False\<rparr>)"
    using member_record_update[OF m(1)] by simp
  have sy: "store_synced e ?s'" if "write_result e (writes (world_now s)) = WriteOk"
    using that sv load_after_save[of e "user_data_store (world_now s)" ?d r] by (simp add: store_synced_def)
  show ?thesis
    using vm pe mr sy by (intro exI[of _ ?s'] exI[of _ pevs] exI[of _ ?d]) simp
qed

lemma verify_member_denied:
  assumes "py_int k = Inr n" "is_owner e n = Inr False" "verified info = Some True" "address info = Some a"
      and "fst (verify_user_balance e cfg a) = Inr False"
      and "\<not> (ban_chat_member e g n \<and> unban_chat_member e g n)"
  shows "\<exists>s' pevs. verify_member e g cfg k info s = (None, s')
           \<and> (events s' = events s @ pevs @ [BanChatMember g n]
                \<or> events s' = events s @ pevs @ [BanChatMember g n, UnbanChatMember g n])
           \<and> (\<forall>ev \<in> set pevs. is_provider_event ev)
           \<and> user_data s' = user_data s \<and> world_now s' = world_now s
           \<and> error_count s' = Suc (error_count s)"
proof -
  obtain pevs where v: "verify_user_balance e cfg a = (Inr False, pevs)"
    using assms(5) by (cases "verify_user_balance e cfg a") simp
  have pe: "\<forall>ev \<in> set pevs. is_provider_event ev"
    using verify_provider_events[of e cfg a] v by simp
  show ?thesis
  proof (cases "ban_chat_member e g n")
    case False
    then show ?thesis using assms(1-4) v pe
      by (auto simp: verify_member_def remove_member_try_def Let_def)
  next
    case True
    then have "\<not> unban_chat_member e g n" using assms(6) by simp
    then show ?thesis using assms(1-4) v pe True
      by (auto simp: verify_member_def remove_member_try_def Let_def)
  qed
qed


lemma provider_counts:
  "\<forall>ev \<in> set pevs. is_provider_event ev \<Longrightarrow>
   count_list pevs (BanChatMember g n) = 0 \<and> count_list pevs (UnbanChatMember g n) = 0
   \<and> (\<forall>d. SaveUserData d \<notin> set pevs)"
  by (fastforce simp: count_list_0_iff)

lemma pass_split:
  assumes ld: "load_json_file e (user_data_store w) = Inr ud"
      and grp: "map_of ud g = Some members"
      and wf: "\<forall>m \<in> set members. member_wellformed m"
      and dist: "distinct (map fst members)"
      and uniq: "\<forall>m \<in> set members. py_int (fst m) = Inr n \<longrightarrow> fst m = k"
      and mem: "(k, info) \<in> set members"
      and res: "verify_all_members e g cfg w = (ex, st)"
  shows "\<exists>s1 s2. ex = None
           \<and> others_only g n k \<lparr>user_data = ud, world_now = w, events = [], verified_count = 0, removed_count = 0, error_count = 0\<rparr> s1
           \<and> verify_member e g cfg k info s1 = (None, s2)
           \<and> others_only g n k s2 st
           \<and> member_record ud g k = Some info
           \<and> ((\<forall>i. write_result e i = WriteOk) \<longrightarrow> store_synced e s1 \<and> (store_synced e s2 \<longrightarrow> store_synced e st))"
proof -
  let ?st0 = "\<lparr>user_data = ud, world_now = w, events = [], verified_count = 0, removed_count = 0, error_count = 0\<rparr>"
  obtain pre post where sp: "members = pre @ (k, info) # post"
    using mem by (meson split_list)
  have kp: "k \<notin> fst ` set pre" "k \<notin> fst ` set post"
    using dist sp by auto
  have op: "\<forall>m \<in> set pre. py_int (fst m) \<noteq> Inr n \<and> fst m \<noteq> k"
    using uniq kp sp by force
  have oq: "\<forall>m \<in> set post. py_int (fst m) \<noteq> Inr n \<and> fst m \<noteq> k"
    using uniq kp sp by force
  have l: "members_loop e g cfg members ?st0 = (ex, st)"
    using res ld grp by (simp add: verify_all_members_def Let_def)
  obtain x1 s1 where l1: "members_loop e g cfg pre ?st0 = (x1, s1)"
    by (cases "members_loop e g cfg pre ?st0")
  have "x1 = None"
    using members_loop_wellformed[of pre e g cfg ?st0] wf sp l1 by simp
  obtain x2 s2 where v: "verify_member e g cfg k info s1 = (x2, s2)"
    by (cases "verify_member e g cfg k info s1")
  have "x2 = None"
    using verify_member_wellformed[of k info e g cfg s1] wf sp v by simp
  have l2: "members_loop e g cfg post s2 = (ex, st)"
    using l sp l1 v \<open>x1 = None\<close> \<open>x2 = None\<close> by (simp add: members_loop_append)
  have "ex = None"
    using members_loop_wellformed[of post e g cfg s2] wf sp l2 by simp
  have o1: "others_only g n k ?st0 s1" using l1 op by (rule members_loop_others)
  have o2: "others_only g n k s2 st" using l2 oq by (rule members_loop_others)
  have mr: "member_record ud g k = Some info"
    using grp dist mem by (simp add: member_record_def)
  have sy0: "store_synced e ?st0" using ld by (simp add: store_synced_def)
  have sy: "store_synced e s1 \<and> (store_synced e s2 \<longrightarrow> store_synced e st)" if "\<forall>i. write_result e i = WriteOk"
    using members_loop_synced[OF l1 sy0 that] members_loop_synced[OF l2 _ that] by blast
  show ?thesis
    using \<open>ex = None\<close> o1 o2 v \<open>x2 = None\<close> mr sy by blast
qed

subsection \<open>The pass over the example state\<close>

lemma example_keys:
  "py_int ''7'' = Inr 7" "py_int ''1825755152'' = Inr 1825755152"
  "py_str 7 = Inr ''7''" "py_str 1825755152 = Inr ''1825755152''"
  by code_simp+

lemma example_owner:
  "ADMIN_USER_ID e = ''1825755152'' \<Longrightarrow> is_owner e 7 = Inr False"
  "ADMIN_USER_ID e = ''1825755152'' \<Longrightarrow> is_owner e 1825755152 = Inr True"
  by (simp_all add: is_owner_def example_keys)

lemma no_keys_balance:
  assumes "MORALIS_API_KEY e = None" "ETHERSCAN_API_KEY e = None"
  shows "verify_user_balance e cfg_one a = (Inr False, [MoralisMetadata ''bsc'' ''0xT''])"
proof -
  have c: "chain_map_get ''bsc'' = ''bsc''" by code_simp
  have p: "primary_failed e a ''0xT'' (config_chain cfg_one)"
    using assms(1) by (simp add: primary_failed_def moralis_configured_def)
  have s: "secondary_failed e a ''0xT''"
    using assms(2) by (simp add: secondary_failed_def get_token_balance_etherscan_def)
  have f: "fst (fallback_verdict e a ''0xT'' (config_chain cfg_one) 1) = Inr False"
    using fallback_failed[OF s] by simp
  have v: "snd (fallback_verdict e a ''0xT'' (config_chain cfg_one) 1) = [MoralisMetadata ''bsc'' ''0xT'']"
    using assms(2) c by (simp add: fallback_events get_token_balance_etherscan_def config_chain_def cfg_one_def)
  have "verify_user_balance e cfg_one a =
           (fst (fallback_verdict e a ''0xT'' (config_chain cfg_one) 1),
            primary_events e a ''0xT'' (config_chain cfg_one) @ snd (fallback_verdict e a ''0xT'' (config_chain cfg_one) 1))"
    using try_fallback[of cfg_one "''0xT''" 1 e a] p by (simp add: cfg_one_def)
  then show ?thesis
    using f v assms(1) by (simp add: primary_events_def moralis_configured_def)
qed

lemma example_load:
  "load_json_file env_offline (user_data_store world_blocked) = Inr members_doc"
  "load_json_file env_denied (user_data_store world_blocked) = Inr members_doc"
  "load_json_file env_offline (config_store world_blocked) = Inr [(''-100'', cfg_one)]"
  by (simp_all add: load_json_file_def read_json_def env_offline_def env_denied_def world_blocked_def
      truthy_def members_doc_def)

lemma pass_offline:
  "verify_all_members env_offline ''-100'' cfg_one world_blocked = (None, pass_after)"
proof -
  have b: "verify_user_balance env_offline cfg_one ''0xA'' = (Inr False, [MoralisMetadata ''bsc'' ''0xT''])"
    by (rule no_keys_balance) (simp_all add: env_offline_def)
  have o: "is_owner env_offline 7 = Inr False" "is_owner env_offline 1825755152 = Inr True"
    by (simp_all add: example_owner env_offline_def)
  have w: "write_result env_offline 0 = WriteOk" "ban_chat_member env_offline ''-100'' 7"
    "unban_chat_member env_offline ''-100'' 7" "DATABASE_URL env_offline = None"
    by (simp_all add: env_offline_def)
  show ?thesis
    unfolding verify_all_members_def example_load
    by (simp add: members_doc_def verify_member_def example_keys o b remove_member_try_def
        member_owner_def member_seven_def w save_json_file_def write_json_def truthy_def
        world_blocked_def pass_after_def world_after_def events_after_def members_doc_after_def Let_def)
qed

lemma pass_denied:
  "verify_all_members env_denied ''-100'' cfg_one world_blocked = (None, pass_refused)"
proof -
  have b: "verify_user_balance env_denied cfg_one ''0xA'' = (Inr False, [MoralisMetadata ''bsc'' ''0xT''])"
    by (rule no_keys_balance) (simp_all add: env_offline_def env_denied_def)
  have o: "is_owner env_denied 7 = Inr False" "is_owner env_denied 1825755152 = Inr True"
    by (simp_all add: example_owner env_offline_def env_denied_def)
  have w: "\<not> ban_chat_member env_denied ''-100'' 7"
    by (simp_all add: env_denied_def)
  show ?thesis
    unfolding verify_all_members_def example_load
    by (simp add: members_doc_def verify_member_def example_keys o b remove_member_try_def
        member_owner_def member_seven_def w 
        world_blocked_def pass_refused_def Let_def)
qed

lemma cycle_offline:
  "periodic_verification env_offline world_blocked = Inr (world_after, events_after)"
proof -
  have l: "load_json_file env_offline (config_store world_after) = Inr [(''-100'', cfg_one)]"
    using example_load(3) by (simp add: world_after_def)
  show ?thesis
    by (simp add: periodic_verification_def example_load pass_offline pass_after_def)
qed

lemma example_blocked: "is_group_blocked env_offline ''-100'' world_blocked = Inr True"
  by code_simp

lemma example_stored:
  "load_json_file env_offline (user_data_store world_after) = Inr members_doc_after"
  by (simp add: load_json_file_def read_json_def env_offline_def world_after_def truthy_def
      members_doc_after_def)

lemma groups_loop_total: "\<exists>w' evs'. groups_loop e cs w evs = Inr (w', evs')"
proof (induction cs arbitrary: w evs)
  case Nil
  then show ?case by simp
next
  case (Cons c cs)
  obtain g cfg where c: "c = (g, cfg)" by (cases c)
  obtain fresh where f: "load_json_file e (config_store w) = Inr fresh"
    using load_total by blast
  show ?case
    using Cons.IH c f by (simp add: Let_def split: prod.splits)
qed

lemma periodic_total: "\<exists>w' evs. periodic_verification e w = Inr (w', evs)"
proof -
  obtain c where c: "load_json_file e (config_store w) = Inr c"
    using load_total by blast
  show ?thesis
    using c groups_loop_total[of e c w "[]"] by (simp add: periodic_verification_def)
qed

section \<open>The reverification pass: the claims\<close>

text \<open>
  C9. In every scheduler pass the owner is skipped unconditionally. For every
  environment (so for every outcome of the balance providers and of the chat platform),
  every stored state and every user id \<open>owner\<close> with \<open>is_owner owner\<close>:
  \<open>periodic_verification\<close> returns, no \<open>ban_chat_member\<close> or \<open>unban_chat_member\<close> call
  of the pass names \<open>owner\<close> in any group, and under every key \<open>k\<close> with
  \<open>int(k) = owner\<close>, in every group, the record in each document the pass hands to
  \<open>save_json_file\<close> is the record that was stored when the pass began, whatever its
  \<open>verified\<close> flag says. The member document stored at the end carries these records
  too, unless it reads as empty (after a write that failed).
\<close>

theorem owner_is_never_removed:
  assumes "is_owner e owner = Inr True"
  shows "\<exists>w' evs ud0.
           periodic_verification e w = Inr (w', evs)
         \<and> load_json_file e (user_data_store w) = Inr ud0
         \<and> (\<forall>g. BanChatMember g owner \<notin> set evs \<and> UnbanChatMember g owner \<notin> set evs)
         \<and> (\<forall>d g k. SaveUserData d \<in> set evs \<and> py_int k = Inr owner
               \<longrightarrow> member_record d g k = member_record ud0 g k)
         \<and> (\<forall>d g k. load_json_file e (user_data_store w') = Inr d \<and> d \<noteq> [] \<and> py_int k = Inr owner
               \<longrightarrow> member_record d g k = member_record ud0 g k)"
proof -
  obtain w' evs where r: "periodic_verification e w = Inr (w', evs)"
    using periodic_total by blast
  obtain ud0 where u: "load_json_file e (user_data_store w) = Inr ud0"
    using load_total by blast
  have s: "store_agrees e ud0 w"
    using u by (simp add: store_agrees_def owner_same_refl)
  have n: "events_respect_owner e ud0 []"
    by (simp add: events_respect_owner_def)
  obtain c where c: "load_json_file e (config_store w) = Inr c"
    using load_total by blast
  have "events_respect_owner e ud0 evs \<and> store_agrees e ud0 w'"
  proof (cases "c = []")
    case True
    then show ?thesis using r c n s by (simp add: periodic_verification_def)
  next
    case False
    then have "groups_loop e c w [] = Inr (w', evs)"
      using r c by (simp add: periodic_verification_def)
    then show ?thesis using groups_loop_respects s n by blast
  qed
  then have "(\<forall>g. BanChatMember g owner \<notin> set evs \<and> UnbanChatMember g owner \<notin> set evs)
         \<and> (\<forall>d g k. SaveUserData d \<in> set evs \<and> py_int k = Inr owner
               \<longrightarrow> member_record d g k = member_record ud0 g k)
         \<and> (\<forall>d g k. load_json_file e (user_data_store w') = Inr d \<and> d \<noteq> [] \<and> py_int k = Inr owner
               \<longrightarrow> member_record d g k = member_record ud0 g k)"
    using assms unfolding events_respect_owner_def owner_same_def store_agrees_def by blast
  then show ?thesis using r u by blast
qed

theorem owner_is_never_removed_witness:
  "is_owner env_offline 1825755152 = Inr True
   \<and> member_record members_doc ''-100'' ''1825755152'' = Some member_owner
   \<and> verified member_owner = Some True
   \<and> (\<exists>w' evs ud0.
           periodic_verification env_offline world_blocked = Inr (w', evs)
         \<and> load_json_file env_offline (user_data_store world_blocked) = Inr ud0
         \<and> (\<forall>g. BanChatMember g 1825755152 \<notin> set evs \<and> UnbanChatMember g 1825755152 \<notin> set evs)
         \<and> (\<forall>d g k. SaveUserData d \<in> set evs \<and> py_int k = Inr 1825755152
               \<longrightarrow> member_record d g k = member_record ud0 g k)
         \<and> (\<forall>d g k. load_json_file env_offline (user_data_store w') = Inr d \<and> d \<noteq> [] \<and> py_int k = Inr 1825755152
               \<longrightarrow> member_record d g k = member_record ud0 g k))"
proof -
  have h: "is_owner env_offline 1825755152 = Inr True"
    by (simp add: example_owner env_offline_def)
  have m: "member_record members_doc ''-100'' ''1825755152'' = Some member_owner"
    by (simp add: member_record_def members_doc_def)
  have v: "verified member_owner = Some True"
    by (simp add: member_owner_def)
  show ?thesis
    using h m v owner_is_never_removed [OF h, of world_blocked] by blast
qed

text \<open>
  C3. A blocked group must see no enforcement action: a pass may not remove a member
  of it or change its member records. \<open>periodic_verification\<close> and \<open>verify_all_members\<close>
  never read the \<open>rejected_groups\<close> document. In the state \<open>world_blocked\<close> the group
  \<open>-100\<close> is configured and \<open>is_group_blocked\<close> answers true for it; member 7 is stored
  as verified and the balance check, with no provider reachable, answers false. The
  pass bans and unbans member 7 in that group and stores the record with the flag
  cleared.
\<close>

theorem blocked_group_is_still_enforced:
  "is_group_blocked env_offline ''-100'' world_blocked = Inr True
   \<and> load_json_file env_offline (user_data_store world_blocked) = Inr members_doc
   \<and> member_record members_doc ''-100'' ''7'' = Some member_seven
   \<and> periodic_verification env_offline world_blocked = Inr (world_after, events_after)
   \<and> events_after = [MoralisMetadata ''bsc'' ''0xT'', BanChatMember ''-100'' 7,
                      UnbanChatMember ''-100'' 7, SaveUserData members_doc_after]
   \<and> load_json_file env_offline (user_data_store world_after) = Inr members_doc_after
   \<and> member_record members_doc_after ''-100'' ''7'' = Some (member_seven\<lparr>verified := Some False\<rparr>)
   \<and> member_seven\<lparr>verified := Some False\<rparr> \<noteq> member_seven"
  using example_blocked example_load(1) cycle_offline example_stored
  by (simp add: member_record_def members_doc_def members_doc_after_def events_after_def
      member_seven_def)

text \<open>
  C5, as amended. Take a group whose stored member entries are well-formed (every key
  is the text of an integer, every verified member has an address; the keys are
  distinct, as in any \<open>dict\<close>), and in it a member other than the owner, stored with
  \<open>verified\<close> true under the only key that denotes its user id. One pass over the
  group, a call of \<open>verify_all_members\<close>, then does the following.
  If the balance check answers false, \<open>ban_chat_member\<close> is called exactly once for the
  member. If the platform accepts the ban and the unban, \<open>unban_chat_member\<close> is
  called exactly once too, and directly after it the document with the member's
  flag set to false is handed to \<open>save_json_file\<close> (per member, inside the loop); the
  flag is false in memory at the end of the pass, and when the writes succeed the
  stored document is the one in memory. If the platform refuses the ban or the unban,
  the member's record stays as stored, in memory and in every document the pass saves.
  If the balance check answers true, neither call is made for the member, its record
  stays as stored in memory and in every document the pass saves, and the member's
  iteration only adds the requests of the balance check and counts the member as
  verified.
\<close>

theorem removal_then_flag_then_save:
  assumes ld: "load_json_file e (user_data_store w) = Inr ud"
      and grp: "map_of ud g = Some members"
      and wf: "\<forall>m \<in> set members. member_wellformed m"
      and dist: "distinct (map fst members)"
      and uniq: "\<forall>m \<in> set members. py_int (fst m) = Inr n \<longrightarrow> fst m = k"
      and mem: "(k, info) \<in> set members" "py_int k = Inr n" "is_owner e n = Inr False"
               "verified info = Some True" "address info = Some a"
      and res: "verify_all_members e g cfg w = (ex, st)"
  shows "(fst (verify_user_balance e cfg a) = Inr False \<and> ban_chat_member e g n \<and> unban_chat_member e g n \<longrightarrow>
            count_list (events st) (BanChatMember g n) = 1
          \<and> count_list (events st) (UnbanChatMember g n) = 1
          \<and> (\<exists>before after d.
                events st = before @ [BanChatMember g n, UnbanChatMember g n, SaveUserData d] @ after
                \<and> member_record d g k = Some (info\<lparr>verified := Some False\<rparr>))
          \<and> member_record (user_data st) g k = Some (info\<lparr>verified := Some False\<rparr>)
          \<and> ((\<forall>i. write_result e i = WriteOk) \<longrightarrow>
                load_json_file e (user_data_store (world_now st)) = Inr (user_data st)))
       \<and> (fst (verify_user_balance e cfg a) = Inr False \<and> \<not> (ban_chat_member e g n \<and> unban_chat_member e g n) \<longrightarrow>
            count_list (events st) (BanChatMember g n) = 1
          \<and> member_record (user_data st) g k = Some info
          \<and> (\<forall>d. SaveUserData d \<in> set (events st) \<longrightarrow> member_record d g k = Some info))
       \<and> (fst (verify_user_balance e cfg a) = Inr True \<longrightarrow>
            count_list (events st) (BanChatMember g n) = 0
          \<and> count_list (events st) (UnbanChatMember g n) = 0
          \<and> member_record (user_data st) g k = Some info
          \<and> (\<forall>d. SaveUserData d \<in> set (events st) \<longrightarrow> member_record d g k = Some info)
          \<and> (\<forall>s. verify_member e g cfg k info s =
                 (None, s\<lparr>events := events s @ snd (verify_user_balance e cfg a),
                           verified_count := Suc (verified_count s)\<rparr>)))"
proof -
  let ?st0 = "\<lparr>user_data = ud, world_now = w, events = [], verified_count = 0, removed_count = 0, error_count = 0\<rparr>"
  obtain s1 s2 where
    o1: "others_only g n k ?st0 s1"
    and v: "verify_member e g cfg k info s1 = (None, s2)"
    and o2: "others_only g n k s2 st"
    and mr: "member_record ud g k = Some info"
    and sy: "(\<forall>i. write_result e i = WriteOk) \<longrightarrow> store_synced e s1 \<and> (store_synced e s2 \<longrightarrow> store_synced e st)"
    using pass_split[OF ld grp wf dist uniq mem(1) res] by blast
  obtain evs1 where e1: "events s1 = evs1"
    "BanChatMember g n \<notin> set evs1" "UnbanChatMember g n \<notin> set evs1"
    "\<forall>d. SaveUserData d \<in> set evs1 \<longrightarrow> member_record d g k = Some info"
    "member_record (user_data s1) g k = Some info"
    using o1 mr unfolding others_only_def by auto
  obtain evs2 where e2: "events st = events s2 @ evs2"
    "BanChatMember g n \<notin> set evs2" "UnbanChatMember g n \<notin> set evs2"
    "\<forall>d. SaveUserData d \<in> set evs2 \<longrightarrow> member_record d g k = member_record (user_data s2) g k"
    "member_record (user_data st) g k = member_record (user_data s2) g k"
    using o2 unfolding others_only_def by auto
  have removed: "count_list (events st) (BanChatMember g n) = 1
          \<and> count_list (events st) (UnbanChatMember g n) = 1
          \<and> (\<exists>before after d.
                events st = before @ [BanChatMember g n, UnbanChatMember g n, SaveUserData d] @ after
                \<and> member_record d g k = Some (info\<lparr>verified := Some False\<rparr>))
          \<and> member_record (user_data st) g k = Some (info\<lparr>verified := Some False\<rparr>)
          \<and> ((\<forall>i. write_result e i = WriteOk) \<longrightarrow>
                load_json_file e (user_data_store (world_now st)) = Inr (user_data st))"
    if c: "fst (verify_user_balance e cfg a) = Inr False" "ban_chat_member e g n" "unban_chat_member e g n"
  proof -
    obtain s' pevs d where r: "verify_member e g cfg k info s1 = (None, s')"
      "events s' = events s1 @ pevs @ [BanChatMember g n, UnbanChatMember g n, SaveUserData d]"
      "\<forall>ev \<in> set pevs. is_provider_event ev"
      "user_data s' = d"
      "member_record d g k = Some (info\<lparr>verified := Some False\<rparr>)"
      "write_result e (writes (world_now s1)) = WriteOk \<longrightarrow> store_synced e s'"
      using verify_member_removed[OF mem(2-5) c e1(5)] by blast
    have s2: "s2 = s'" using v r(1) by simp
    have ev: "events st = (evs1 @ pevs) @ [BanChatMember g n, UnbanChatMember g n, SaveUserData d] @ evs2"
      using e2(1) s2 r(2) e1(1) by simp
    have pc: "count_list pevs (BanChatMember g n) = 0" "count_list pevs (UnbanChatMember g n) = 0"
      using provider_counts[OF r(3)] by simp_all
    have c1: "count_list (events st) (BanChatMember g n) = 1"
      using ev e1(2) e2(2) pc by simp
    have c2: "count_list (events st) (UnbanChatMember g n) = 1"
      using ev e1(3) e2(3) pc by simp
    have m: "member_record (user_data st) g k = Some (info\<lparr>verified := Some False\<rparr>)"
      using e2(5) s2 r(4,5) by simp
    have sy': "load_json_file e (user_data_store (world_now st)) = Inr (user_data st)"
      if "\<forall>i. write_result e i = WriteOk"
      using sy that r(6) s2 by (simp add: store_synced_def)
    show ?thesis using c1 c2 ev r(5) m sy' by blast
  qed
  have denied: "count_list (events st) (BanChatMember g n) = 1
          \<and> member_record (user_data st) g k = Some info
          \<and> (\<forall>d. SaveUserData d \<in> set (events st) \<longrightarrow> member_record d g k = Some info)"
    if c: "fst (verify_user_balance e cfg a) = Inr False" "\<not> (ban_chat_member e g n \<and> unban_chat_member e g n)"
  proof -
    obtain s' pevs where r: "verify_member e g cfg k info s1 = (None, s')"
      "events s' = events s1 @ pevs @ [BanChatMember g n]
         \<or> events s' = events s1 @ pevs @ [BanChatMember g n, UnbanChatMember g n]"
      "\<forall>ev \<in> set pevs. is_provider_event ev"
      "user_data s' = user_data s1"
      using verify_member_denied[OF mem(2-5) c, where s = s1] by blast
    have s2: "s2 = s'" using v r(1) by simp
    have pc: "count_list pevs (BanChatMember g n) = 0" "\<forall>d. SaveUserData d \<notin> set pevs"
      using provider_counts[OF r(3)] by simp_all
    have c1: "count_list (events st) (BanChatMember g n) = 1"
      using r(2) e2(1,2) e1(1,2) s2 pc by auto
    have m: "member_record (user_data st) g k = Some info"
      using e2(5) s2 r(4) e1(5) by simp
    have sv: "member_record d g k = Some info" if "SaveUserData d \<in> set (events st)" for d
    proof -
      have "SaveUserData d \<in> set evs1 \<or> SaveUserData d \<in> set evs2"
        using that r(2) e2(1) e1(1) s2 pc(2) by auto
      then show ?thesis using e1(4) e2(4) s2 r(4) e1(5) by auto
    qed
    show ?thesis using c1 m sv by blast
  qed
  have compliant: "count_list (events st) (BanChatMember g n) = 0
          \<and> count_list (events st) (UnbanChatMember g n) = 0
          \<and> member_record (user_data st) g k = Some info
          \<and> (\<forall>d. SaveUserData d \<in> set (events st) \<longrightarrow> member_record d g k = Some info)
          \<and> (\<forall>s. verify_member e g cfg k info s =
                 (None, s\<lparr>events := events s @ snd (verify_user_balance e cfg a),
                           verified_count := Suc (verified_count s)\<rparr>))"
    if c: "fst (verify_user_balance e cfg a) = Inr True"
  proof -
    have vm: "verify_member e g cfg k info s =
                 (None, s\<lparr>events := events s @ snd (verify_user_balance e cfg a),
                           verified_count := Suc (verified_count s)\<rparr>)" for s
      using verify_member_compliant[OF mem(2-5) c] by simp
    have s2: "s2 = s1\<lparr>events := events s1 @ snd (verify_user_balance e cfg a),
                       verified_count := Suc (verified_count s1)\<rparr>"
      using v vm[of s1] by simp
    have pc: "count_list (snd (verify_user_balance e cfg a)) (BanChatMember g n) = 0"
      "count_list (snd (verify_user_balance e cfg a)) (UnbanChatMember g n) = 0"
      "\<forall>d. SaveUserData d \<notin> set (snd (verify_user_balance e cfg a))"
      using provider_counts[OF verify_provider_events[of e cfg a]] by simp_all
    have ev: "events st = evs1 @ snd (verify_user_balance e cfg a) @ evs2"
      using e2(1) s2 e1(1) by simp
    have c1: "count_list (events st) (BanChatMember g n) = 0"
      using ev e1(2) e2(2) pc by simp
    have c2: "count_list (events st) (UnbanChatMember g n) = 0"
      using ev e1(3) e2(3) pc by simp
    have m: "member_record (user_data st) g k = Some info"
      using e2(5) s2 e1(5) by simp
    have sv: "member_record d g k = Some info" if "SaveUserData d \<in> set (events st)" for d
    proof -
      have "SaveUserData d \<in> set evs1 \<or> SaveUserData d \<in> set evs2"
        using that ev pc(3) by auto
      then show ?thesis using e1(4) e2(4) s2 e1(5) by auto
    qed
    show ?thesis using c1 c2 m sv vm by blast
  qed
  show ?thesis using removed denied compliant by blast
qed

theorem removal_then_flag_then_save_witness:
  "load_json_file env_offline (user_data_store world_blocked) = Inr members_doc
   \<and> map_of members_doc ''-100'' = Some [(''1825755152'', member_owner), (''7'', member_seven)]
   \<and> member_wellformed (''1825755152'', member_owner) \<and> member_wellformed (''7'', member_seven)
   \<and> distinct (map fst [(''1825755152'', member_owner), (''7'', member_seven)])
   \<and> py_int ''1825755152'' = Inr 1825755152
   \<and> (''7'', member_seven) \<in> set [(''1825755152'', member_owner), (''7'', member_seven)]
   \<and> py_int ''7'' = Inr 7 \<and> is_owner env_offline 7 = Inr False
   \<and> verified member_seven = Some True \<and> address member_seven = Some ''0xA''
   \<and> verify_all_members env_offline ''-100'' cfg_one world_blocked = (None, pass_after)
   \<and> fst (verify_user_balance env_offline cfg_one ''0xA'') = Inr False
   \<and> ban_chat_member env_offline ''-100'' 7 \<and> unban_chat_member env_offline ''-100'' 7
   \<and> count_list (events pass_after) (BanChatMember ''-100'' 7) = 1
   \<and> count_list (events pass_after) (UnbanChatMember ''-100'' 7) = 1
   \<and> (\<exists>before after d.
         events pass_after = before @ [BanChatMember ''-100'' 7, UnbanChatMember ''-100'' 7, SaveUserData d] @ after
         \<and> member_record d ''-100'' ''7'' = Some (member_seven\<lparr>verified := Some False\<rparr>))
   \<and> member_record (user_data pass_after) ''-100'' ''7'' = Some (member_seven\<lparr>verified := Some False\<rparr>)"
proof -
  have ld: "load_json_file env_offline (user_data_store world_blocked) = Inr members_doc"
    by (rule example_load(1))
  have grp: "map_of members_doc ''-100'' = Some [(''1825755152'', member_owner), (''7'', member_seven)]"
    by (simp add: members_doc_def)
  have wf: "\<forall>m \<in> set [(''1825755152'', member_owner), (''7'', member_seven)]. member_wellformed m"
    by (simp add: member_wellformed_def example_keys member_owner_def member_seven_def)
  have dist: "distinct (map fst [(''1825755152'', member_owner), (''7'', member_seven)])"
    by simp
  have uniq: "\<forall>m \<in> set [(''1825755152'', member_owner), (''7'', member_seven)]. py_int (fst m) = Inr 7 \<longrightarrow> fst m = ''7''"
    by (simp add: example_keys)
  have mem: "(''7'', member_seven) \<in> set [(''1825755152'', member_owner), (''7'', member_seven)]"
    by simp
  have key: "py_int ''7'' = Inr 7"
    by (rule example_keys(1))
  have own: "is_owner env_offline 7 = Inr False"
    by (simp add: example_owner env_offline_def)
  have ver: "verified member_seven = Some True" and adr: "address member_seven = Some ''0xA''"
    by (simp_all add: member_seven_def)
  have res: "verify_all_members env_offline ''-100'' cfg_one world_blocked = (None, pass_after)"
    by (rule pass_offline)
  have bal: "fst (verify_user_balance env_offline cfg_one ''0xA'') = Inr False"
    using no_keys_balance[of env_offline "''0xA''"] by (simp add: env_offline_def)
  have ban: "ban_chat_member env_offline ''-100'' 7" "unban_chat_member env_offline ''-100'' 7"
    by (simp_all add: env_offline_def)
  have wf': "member_wellformed (''1825755152'', member_owner) \<and> member_wellformed (''7'', member_seven)"
    using wf by simp
  have okey: "py_int ''1825755152'' = Inr 1825755152"
    by (rule example_keys(2))
  show ?thesis
    using ld grp wf' dist okey mem key own ver adr res bal ban
      removal_then_flag_then_save [OF ld grp wf dist uniq mem key own ver adr res]
    by blast
qed

text \<open>The claim without the condition on the platform fails in \<open>env_denied\<close>, where the
  platform refuses the ban: member 7 is stored as verified, its balance check answers
  false and the pass calls \<open>ban_chat_member\<close> for it once, but then the flag is still
  true, no document has been handed to \<open>save_json_file\<close> and the store is as it was.\<close>

theorem removal_refused_keeps_flag:
  "load_json_file env_denied (user_data_store world_blocked) = Inr members_doc
   \<and> member_record members_doc ''-100'' ''7'' = Some member_seven
   \<and> verified member_seven = Some True
   \<and> is_owner env_denied 7 = Inr False
   \<and> fst (verify_user_balance env_denied cfg_one ''0xA'') = Inr False
   \<and> verify_all_members env_denied ''-100'' cfg_one world_blocked = (None, pass_refused)
   \<and> events pass_refused = [MoralisMetadata ''bsc'' ''0xT'', BanChatMember ''-100'' 7]
   \<and> member_record (user_data pass_refused) ''-100'' ''7'' = Some member_seven
   \<and> world_now pass_refused = world_blocked"
  using example_load(2) pass_denied no_keys_balance[of env_denied "''0xA''"]
    example_owner(1)[of env_denied]
  by (simp add: member_record_def members_doc_def member_seven_def pass_refused_def
      env_denied_def env_offline_def)

end
